theory Spec2Isabelle
  imports Main "HOL-Library.Multiset"
begin

section \<open>Qt value types used by the tile manager\<close>

text \<open>
  \<^verbatim>\<open>QUrl\<close> is identified with its string form (\<^verbatim>\<open>QUrl::toString()\<close>), a
  \<^verbatim>\<open>QByteArray\<close> with the list of its characters.
\<close>

type_synonym url = string
type_synonym qbytearray = string

text \<open>
  A \<^verbatim>\<open>QPixmap\<close> is either the null pixmap (default constructed, or the result of a failed
  decode) or a pixmap with a width, a height, a bit depth and its pixel contents.
\<close>

datatype pixmap = NullPixmap | Pixmap nat nat nat string

fun isNull :: "pixmap \<Rightarrow> bool" where
  "isNull NullPixmap = True"
| "isNull (Pixmap w h d bits) = False"

fun width :: "pixmap \<Rightarrow> int" where
  "width NullPixmap = 0"
| "width (Pixmap w h d bits) = int w"

fun height :: "pixmap \<Rightarrow> int" where
  "height NullPixmap = 0"
| "height (Pixmap w h d bits) = int h"

fun depth :: "pixmap \<Rightarrow> int" where
  "depth NullPixmap = 0"
| "depth (Pixmap w h d bits) = int d"

text \<open>
  The library functions the manager calls but does not implement: the MD5 digest in
  hexadecimal (\<^verbatim>\<open>QCryptographicHash::hash(..., Md5).toHex()\<close>), the image decoder
  (\<^verbatim>\<open>QPixmap::fromImageReader\<close>), the EPSG code of the current projection
  (\<^verbatim>\<open>projection::get().epsg()\<close>) and the depth of a freshly created pixmap.
\<close>

record qt =
  md5Hex :: "string \<Rightarrow> qbytearray"
  fromImageReader :: "qbytearray \<Rightarrow> pixmap"
  epsg :: int
  defaultDepth :: nat

text \<open>\<^verbatim>\<open>QPixmap(w, h)\<close>: a null pixmap unless both sides are positive.\<close>

definition QPixmap_sized :: "qt \<Rightarrow> int \<Rightarrow> int \<Rightarrow> string \<Rightarrow> pixmap" where
  "QPixmap_sized q w h bits =
     (if 0 < w \<and> 0 < h then Pixmap (nat w) (nat h) (defaultDepth q) bits else NullPixmap)"

text \<open>\<^verbatim>\<open>QString::number(int)\<close>: the decimal digits, with a minus sign below zero.\<close>

definition digit_char :: "nat \<Rightarrow> char" where
  "digit_char d = ''0123456789'' ! d"

function string_of_nat :: "nat \<Rightarrow> string" where
  "string_of_nat n =
     (if n < 10 then [digit_char n] else string_of_nat (n div 10) @ [digit_char (n mod 10)])"
  by pat_completeness auto
termination
  by (relation "measure (\<lambda>n. n)") auto

declare string_of_nat.simps [simp del]

definition QString_number :: "int \<Rightarrow> string" where
  "QString_number i =
     (if i < 0 then CHR ''-'' # string_of_nat (nat (- i)) else string_of_nat (nat i))"

section \<open>The memory cache: \<^verbatim>\<open>QCache<QByteArray, QPixmap>\<close>\<close>

text \<open>
  The cache keeps its nodes in a chain ordered by recency, the most recently used node first.
  Each node carries its key, its object and its cost; no key occurs twice.
  \<^item> \<^verbatim>\<open>object(key)\<close> returns the object of the node with that key and moves the node to the
    front of the chain; a key that is absent changes nothing.
  \<^item> \<^verbatim>\<open>trim(m)\<close> unlinks nodes from the back of the chain while the total cost exceeds \<^verbatim>\<open>m\<close>.
  \<^item> \<^verbatim>\<open>insert(key, object, cost)\<close> removes the node of that key, then drops the object when
    its cost alone exceeds the maximum, else trims to make room and links the new node first.
  \<^item> \<^verbatim>\<open>setMaxCost(m)\<close> stores the new maximum and trims to it.
\<close>

type_synonym qcache_node = "qbytearray \<times> pixmap \<times> int"

record qcache =
  nodes :: "qcache_node list"
  maxCost :: int

definition node_key :: "qcache_node \<Rightarrow> qbytearray" where
  "node_key n = fst n"

definition node_object :: "qcache_node \<Rightarrow> pixmap" where
  "node_object n = fst (snd n)"

definition node_cost :: "qcache_node \<Rightarrow> int" where
  "node_cost n = snd (snd n)"

definition chain_cost :: "qcache_node list \<Rightarrow> int" where
  "chain_cost ns = sum_list (map node_cost ns)"

definition totalCost :: "qcache \<Rightarrow> int" where
  "totalCost c = chain_cost (nodes c)"

definition unlink_key :: "qbytearray \<Rightarrow> qcache_node list \<Rightarrow> qcache_node list" where
  "unlink_key k ns = filter (\<lambda>n. node_key n \<noteq> k) ns"

function trim_chain :: "int \<Rightarrow> qcache_node list \<Rightarrow> qcache_node list" where
  "trim_chain m ns =
     (if ns \<noteq> [] \<and> m < chain_cost ns then trim_chain m (butlast ns) else ns)"
  by pat_completeness auto
termination
  by (relation "measure (\<lambda>(m, ns). length ns)") auto

declare trim_chain.simps [simp del]

definition qcache_trim :: "int \<Rightarrow> qcache \<Rightarrow> qcache" where
  "qcache_trim m c = c\<lparr>nodes := trim_chain m (nodes c)\<rparr>"

definition qcache_remove :: "qbytearray \<Rightarrow> qcache \<Rightarrow> qcache" where
  "qcache_remove k c = c\<lparr>nodes := unlink_key k (nodes c)\<rparr>"

definition qcache_insert :: "qbytearray \<Rightarrow> pixmap \<Rightarrow> int \<Rightarrow> qcache \<Rightarrow> qcache" where
  "qcache_insert k obj cost c =
     (let c1 = qcache_remove k c in
      if maxCost c1 < cost then c1
      else let c2 = qcache_trim (maxCost c1 - cost) c1
           in c2\<lparr>nodes := (k, obj, cost) # nodes c2\<rparr>)"

definition qcache_object :: "qbytearray \<Rightarrow> qcache \<Rightarrow> pixmap option \<times> qcache" where
  "qcache_object k c =
     (case find (\<lambda>n. node_key n = k) (nodes c) of
        None \<Rightarrow> (None, c)
      | Some n \<Rightarrow> (Some (node_object n), c\<lparr>nodes := n # unlink_key k (nodes c)\<rparr>))"

definition qcache_setMaxCost :: "int \<Rightarrow> qcache \<Rightarrow> qcache" where
  "qcache_setMaxCost m c = qcache_trim m (c\<lparr>maxCost := m\<rparr>)"

section \<open>The persistent cache and the download coordinator\<close>

text \<open>
  \<^verbatim>\<open>QNetworkDiskCache\<close>: a directory, a size bound and the bytes stored for each url
  (\<^verbatim>\<open>data(url)\<close> yields no device for a url without an entry).
\<close>

record disk_cache =
  cacheDirectory :: string
  maximumCacheSize :: int
  cacheData :: "url \<rightharpoonup> qbytearray"

text \<open>
  The manager allocates at most one \<^verbatim>\<open>QNetworkDiskCache\<close> (\<^verbatim>\<open>configureDiskCache\<close> reuses the
  object once it exists), so a pointer to a network cache is either null or the address of
  that object.
\<close>

datatype cache_ptr = Nullptr | DiskCachePtr

text \<open>
  A transport handle (\<^verbatim>\<open>QNetworkReply*\<close>): its identity and the cache-only flag of the request
  it was issued for.
\<close>

datatype reply = Reply nat bool

text \<open>
  \<^verbatim>\<open>NetworkManager\<close> as declared in \<^verbatim>\<open>NetworkManager.h\<close>: the table
  \<^verbatim>\<open>QMap<QNetworkReply*, QUrl> m_downloadRequests\<close> of outstanding requests, the cache set on
  the access manager, and the number of transport operations the access manager has started
  so far (the next handle it hands out).
\<close>

record network_manager =
  downloadRequests :: "(reply \<times> url) list"
  cache :: cache_ptr
  started :: nat

definition NetworkManager_new :: network_manager where
  "NetworkManager_new = \<lparr>downloadRequests = [], cache = Nullptr, started = 0\<rparr>"

text \<open>
  Modelled from the spec: the bodies of the \<^verbatim>\<open>NetworkManager\<close> members are in
  \<^verbatim>\<open>NetworkManager.cpp\<close>, which is not part of the sources at hand; only their declarations
  are. \<^verbatim>\<open>isDownloading\<close>: "checks if the given url resource is currently being downloaded".
\<close>

definition isDownloading :: "network_manager \<Rightarrow> url \<Rightarrow> bool" where
  "isDownloading nm u = (u \<in> set (map snd (downloadRequests nm)))"

text \<open>
  Modelled from the spec: \<^verbatim>\<open>NetworkManager::downloadQueueSize\<close> is missing; the "queue-size
  accessor reports current outstanding count".
\<close>

definition downloadQueueSize :: "network_manager \<Rightarrow> nat" where
  "downloadQueueSize nm = length (downloadRequests nm)"

text \<open>
  Modelled from the spec: \<^verbatim>\<open>NetworkManager::requestDownload\<close> is missing; it starts one
  transport operation for the url and records its handle in the table.
\<close>

definition requestDownload :: "url \<Rightarrow> bool \<Rightarrow> network_manager \<Rightarrow> network_manager" where
  "requestDownload u cacheOnly nm =
     nm\<lparr>downloadRequests := downloadRequests nm @ [(Reply (started nm) cacheOnly, u)],
        started := Suc (started nm)\<rparr>"

text \<open>
  Modelled from the spec: \<^verbatim>\<open>NetworkManager::downloadImage\<close> is missing; "for a given URL, if a
  request is already outstanding, a new request for the same URL does not start a second
  transport call".
\<close>

definition downloadImage :: "url \<Rightarrow> bool \<Rightarrow> network_manager \<Rightarrow> network_manager" where
  "downloadImage u cacheOnly nm =
     (if isDownloading nm u then nm else requestDownload u cacheOnly nm)"

text \<open>
  Modelled from the spec: \<^verbatim>\<open>NetworkManager::downloadFinished\<close> is missing; a request is
  "destroyed on completion, failure, timeout, or global abort". The slot receives the handle
  whose transport operation ended, with success or with an error.
\<close>

definition downloadFinished :: "reply \<Rightarrow> network_manager \<Rightarrow> network_manager" where
  "downloadFinished r nm =
     nm\<lparr>downloadRequests := filter (\<lambda>e. fst e \<noteq> r) (downloadRequests nm)\<rparr>"

text \<open>
  Modelled from the spec: \<^verbatim>\<open>NetworkManager::abortDownloads\<close> is missing; it "cancels every
  outstanding transport operation immediately and clears internal bookkeeping".
\<close>

definition abortDownloads :: "network_manager \<Rightarrow> network_manager" where
  "abortDownloads nm = nm\<lparr>downloadRequests := []\<rparr>"

text \<open>
  Modelled from the spec: \<^verbatim>\<open>NetworkManager::abortTimeoutedRequests\<close> is missing; the sweep
  "scans outstanding requests and force-cancels any that have exceeded a fixed staleness
  threshold". Which handles are that old is decided by the clock, given here as \<open>stale\<close>.
\<close>

definition abortTimeoutedRequests :: "(reply \<Rightarrow> bool) \<Rightarrow> network_manager \<Rightarrow> network_manager" where
  "abortTimeoutedRequests stale nm =
     nm\<lparr>downloadRequests := filter (\<lambda>e. \<not> stale (fst e)) (downloadRequests nm)\<rparr>"

text \<open>
  Modelled from the spec: \<^verbatim>\<open>NetworkManager::setCache\<close> is missing; it attaches the given cache
  to the transport layer, and a null pointer detaches it.
\<close>

definition setCache :: "cache_ptr \<Rightarrow> network_manager \<Rightarrow> network_manager" where
  "setCache p nm = nm\<lparr>cache := p\<rparr>"

text \<open>The events that reach the download coordinator, and a run of them.\<close>

datatype nm_event =
    DownloadImageEv url bool
  | DownloadFinishedEv reply
  | AbortDownloadsEv
  | AbortTimeoutedRequestsEv "reply \<Rightarrow> bool"
  | SetCacheEv cache_ptr

fun nm_step :: "nm_event \<Rightarrow> network_manager \<Rightarrow> network_manager" where
  "nm_step (DownloadImageEv u cacheOnly) nm = downloadImage u cacheOnly nm"
| "nm_step (DownloadFinishedEv r) nm = downloadFinished r nm"
| "nm_step AbortDownloadsEv nm = abortDownloads nm"
| "nm_step (AbortTimeoutedRequestsEv stale) nm = abortTimeoutedRequests stale nm"
| "nm_step (SetCacheEv p) nm = setCache p nm"

fun nm_run :: "nm_event list \<Rightarrow> network_manager \<Rightarrow> network_manager" where
  "nm_run [] nm = nm"
| "nm_run (e # es) nm = nm_run es (nm_step e nm)"

text \<open>The number of outstanding transport operations for one url.\<close>

definition outstanding :: "network_manager \<Rightarrow> url \<Rightarrow> nat" where
  "outstanding nm u = length (filter (\<lambda>e. snd e = u) (downloadRequests nm))"

section \<open>The tile manager: \<^verbatim>\<open>ImageManager\<close>\<close>

datatype cache_policy = AlwaysCache | PreferCache | AlwaysNetwork

text \<open>The signals \<^verbatim>\<open>ImageManager.cpp\<close> emits itself.\<close>

datatype signal = DownloadImage url bool | ImageUpdated url | ImageCached

text \<open>
  What the manager does to its collaborators, in the order it does it: a signal emitted, a
  query of the bound tile provider (\<^verbatim>\<open>getTileData\<close>), a read of the persistent cache
  (\<^verbatim>\<open>QNetworkDiskCache::data\<close>).
\<close>

datatype call = Emit signal | GetTileData url | DiskCacheData url

text \<open>\<^verbatim>\<open>ITileProvider::getTileData(url, data)\<close>: the flag it returns and the bytes it leaves in \<^verbatim>\<open>data\<close>.\<close>

type_synonym tile_provider = "url \<Rightarrow> bool \<times> qbytearray"

record image_manager =
  tile_size_px :: int
  memoryCache :: qcache
  diskCache :: "disk_cache option"
  cachePolicy :: cache_policy
  tileProvider :: "tile_provider option"
  prefetchUrls :: "url set"
  pixmapLoading :: pixmap
  pixmapEmpty :: pixmap
  networkManager :: network_manager
  trace :: "call list"

definition called :: "call \<Rightarrow> image_manager \<Rightarrow> image_manager" where
  "called c s = s\<lparr>trace := trace s @ [c]\<rparr>"

text \<open>
  \<^verbatim>\<open>emit downloadImage(url, cacheOnly)\<close>: the constructor connects the signal to the slot
  \<^verbatim>\<open>NetworkManager::downloadImage\<close> of the member \<^verbatim>\<open>m_networkManager\<close>.
\<close>

definition emit_downloadImage :: "url \<Rightarrow> bool \<Rightarrow> image_manager \<Rightarrow> image_manager" where
  "emit_downloadImage u cacheOnly s =
     (called (Emit (DownloadImage u cacheOnly)) s)
       \<lparr>networkManager := downloadImage u cacheOnly (networkManager s)\<rparr>"

definition diskCache_ptr :: "image_manager \<Rightarrow> cache_ptr" where
  "diskCache_ptr s = (case diskCache s of None \<Rightarrow> Nullptr | Some dc \<Rightarrow> DiskCachePtr)"

definition setupPlaceholderPixmaps :: "qt \<Rightarrow> image_manager \<Rightarrow> image_manager" where
  "setupPlaceholderPixmaps q s =
     s\<lparr>pixmapLoading := QPixmap_sized q (tile_size_px s) (tile_size_px s) ''LOADING...'',
       pixmapEmpty := QPixmap_sized q (tile_size_px s) (tile_size_px s) []\<rparr>"

definition setMemoryCacheCapacity :: "int \<Rightarrow> image_manager \<Rightarrow> image_manager" where
  "setMemoryCacheCapacity capacityMiB s =
     s\<lparr>memoryCache := qcache_setMaxCost (capacityMiB * 1024 * 1024) (memoryCache s)\<rparr>"

definition kDefaultTileSizePx :: int where
  "kDefaultTileSizePx = 256"

definition kDefaultPixmapCacheSizeMiB :: int where
  "kDefaultPixmapCacheSizeMiB = 30"

text \<open>
  The constructor: no persistent cache, policy \<^verbatim>\<open>AlwaysCache\<close>, no tile provider, a fresh
  network manager and a fresh \<^verbatim>\<open>QCache\<close> (whose default maximum is 100), then the capacity
  of the memory cache and the placeholder pixmaps are set.
\<close>

definition ImageManager_new :: "qt \<Rightarrow> int \<Rightarrow> image_manager" where
  "ImageManager_new q tile_size =
     setupPlaceholderPixmaps q
       (setMemoryCacheCapacity kDefaultPixmapCacheSizeMiB
          \<lparr>tile_size_px = tile_size,
           memoryCache = \<lparr>nodes = [], maxCost = 100\<rparr>,
           diskCache = None,
           cachePolicy = AlwaysCache,
           tileProvider = None,
           prefetchUrls = {},
           pixmapLoading = NullPixmap,
           pixmapEmpty = NullPixmap,
           networkManager = NetworkManager_new,
           trace = []\<rparr>)"

definition setTileSizePx :: "qt \<Rightarrow> int \<Rightarrow> image_manager \<Rightarrow> image_manager" where
  "setTileSizePx q tile_size s = setupPlaceholderPixmaps q (s\<lparr>tile_size_px := tile_size\<rparr>)"

text \<open>
  \<^verbatim>\<open>configureDiskCache\<close>: \<open>mkpath_ok\<close> is the result of \<^verbatim>\<open>dir.mkpath\<close>, \<open>found\<close> the
  entries stored in that directory, which the cache serves once the directory is set.
\<close>

definition configureDiskCache ::
  "string \<Rightarrow> int \<Rightarrow> bool \<Rightarrow> (url \<rightharpoonup> qbytearray) \<Rightarrow> image_manager \<Rightarrow> bool \<times> image_manager" where
  "configureDiskCache dir capacityMiB mkpath_ok found s =
     (if mkpath_ok then
        let dc = (case diskCache s of
                    None \<Rightarrow> \<lparr>cacheDirectory = [], maximumCacheSize = 0, cacheData = Map.empty\<rparr>
                  | Some dc \<Rightarrow> dc)
        in (True, s\<lparr>diskCache :=
                      Some (dc\<lparr>cacheDirectory := dir, cacheData := found,
                               maximumCacheSize := capacityMiB * 1024 * 1024\<rparr>)\<rparr>)
      else (False, s))"

definition clearDiskCache :: "image_manager \<Rightarrow> image_manager" where
  "clearDiskCache s =
     (case diskCache s of
        None \<Rightarrow> s
      | Some dc \<Rightarrow> s\<lparr>diskCache := Some (dc\<lparr>cacheData := Map.empty\<rparr>)\<rparr>)"

definition abortLoading :: "image_manager \<Rightarrow> image_manager" where
  "abortLoading s =
     s\<lparr>networkManager := abortDownloads (networkManager s), prefetchUrls := {}\<rparr>"

definition hashTileUrl :: "qt \<Rightarrow> image_manager \<Rightarrow> url \<Rightarrow> qbytearray" where
  "hashTileUrl q s u =
     md5Hex q (u @ QString_number (epsg q) @ QString_number (tile_size_px s))"

text \<open>
  \<^verbatim>\<open>insertTileToMemoryCache\<close>. The cost is computed in \<^verbatim>\<open>int\<close>; the product is taken to stay
  in range (its overflow is undefined in C++).
\<close>

definition pixmap_cost :: "pixmap \<Rightarrow> int" where
  "pixmap_cost pm = width pm * height pm * depth pm div 8"

definition insertTileToMemoryCache :: "qt \<Rightarrow> url \<Rightarrow> pixmap \<Rightarrow> image_manager \<Rightarrow> image_manager" where
  "insertTileToMemoryCache q u pm s =
     (if \<not> isNull pm
      then s\<lparr>memoryCache := qcache_insert (hashTileUrl q s u) pm (pixmap_cost pm) (memoryCache s)\<rparr>
      else s)"

definition findTileInMemoryCache :: "qt \<Rightarrow> url \<Rightarrow> image_manager \<Rightarrow> pixmap option \<times> image_manager" where
  "findTileInMemoryCache q u s =
     (case qcache_object (hashTileUrl q s u) (memoryCache s) of
        (entry, c) \<Rightarrow> (entry, s\<lparr>memoryCache := c\<rparr>))"

definition getImageFromDevice ::
  "qt \<Rightarrow> url \<Rightarrow> qbytearray \<Rightarrow> image_manager \<Rightarrow> pixmap \<times> image_manager" where
  "getImageFromDevice q u device s =
     (let pm = fromImageReader q device;
          s1 = insertTileToMemoryCache q u pm s;
          s2 = s1\<lparr>prefetchUrls := prefetchUrls s1 - {u}\<rparr>
      in (pm, s2))"

text \<open>
  \<^verbatim>\<open>m_diskCache != nullptr\<close> and then \<^verbatim>\<open>m_diskCache->data(url)\<close>: the bytes of the device, or
  \<open>None\<close> when there is no cache object or it returns no device.
\<close>

definition diskCache_data :: "url \<Rightarrow> image_manager \<Rightarrow> qbytearray option \<times> image_manager" where
  "diskCache_data u s =
     (case diskCache s of
        None \<Rightarrow> (None, s)
      | Some dc \<Rightarrow> (cacheData dc u, called (DiskCacheData u) s))"

definition getImageInternal :: "qt \<Rightarrow> url \<Rightarrow> image_manager \<Rightarrow> pixmap \<times> image_manager" where
  "getImageInternal q u s =
     (case tileProvider s of
        Some provider \<Rightarrow>
          (let s1 = called (GetTileData u) s in
           case provider u of
             (True, data) \<Rightarrow> getImageFromDevice q u data s1
           | (False, data) \<Rightarrow> (pixmapEmpty s1, s1))
      | None \<Rightarrow>
          (if cachePolicy s = AlwaysCache \<or> cachePolicy s = PreferCache then
             (case diskCache_data u s of
                (Some data, s1) \<Rightarrow> getImageFromDevice q u data s1
              | (None, s1) \<Rightarrow>
                  (if cachePolicy s1 = AlwaysCache then (pixmapEmpty s1, s1)
                   else (let s2 = emit_downloadImage u False s1 in (pixmapLoading s2, s2))))
           else (let s2 = emit_downloadImage u False s in (pixmapLoading s2, s2))))"

text \<open>
  \<^verbatim>\<open>getImage\<close>. The result \<open>None\<close> is the failure of \<^verbatim>\<open>Q_ASSERT(!pixmap.isNull())\<close> on the hit
  path.
\<close>

definition getImage :: "qt \<Rightarrow> url \<Rightarrow> image_manager \<Rightarrow> (pixmap \<times> image_manager) option" where
  "getImage q u s =
     (case findTileInMemoryCache q u s of
        (Some pm, s1) \<Rightarrow> (if isNull pm then None else Some (pm, s1))
      | (None, s1) \<Rightarrow> Some (getImageInternal q u s1))"

definition rawImageFromDiskCache :: "url \<Rightarrow> image_manager \<Rightarrow> qbytearray \<times> image_manager" where
  "rawImageFromDiskCache u s =
     (case tileProvider s of
        Some provider \<Rightarrow> (snd (provider u), called (GetTileData u) s)
      | None \<Rightarrow>
          (case diskCache_data u s of
             (Some imgData, s1) \<Rightarrow> (imgData, s1)
           | (None, s1) \<Rightarrow> ([], s1)))"

definition prefetchImage :: "qt \<Rightarrow> url \<Rightarrow> image_manager \<Rightarrow> image_manager" where
  "prefetchImage q u s =
     (case findTileInMemoryCache q u s of
        (None, s1) \<Rightarrow>
          snd (getImageInternal q u (s1\<lparr>prefetchUrls := insert u (prefetchUrls s1)\<rparr>))
      | (Some pm, s1) \<Rightarrow> s1)"

definition handleImageCached :: "url \<Rightarrow> image_manager \<Rightarrow> image_manager" where
  "handleImageCached u s = called (Emit ImageCached) s"

definition cacheImageToDisk :: "url \<Rightarrow> image_manager \<Rightarrow> bool \<times> image_manager" where
  "cacheImageToDisk u s =
     (if cachePolicy s = AlwaysCache \<or> cachePolicy s = PreferCache then
        (case rawImageFromDiskCache u s of
           (raw, s1) \<Rightarrow>
             (if 0 < length raw then (True, handleImageCached u s1)
              else if cachePolicy s1 = AlwaysCache then (True, s1)
              else (False, emit_downloadImage u True s1)))
      else (False, emit_downloadImage u True s))"

definition setCachePolicy :: "cache_policy \<Rightarrow> image_manager \<Rightarrow> image_manager" where
  "setCachePolicy policy s =
     (let s1 = s\<lparr>cachePolicy := policy\<rparr>;
          s2 = (if cachePolicy s1 = AlwaysCache then abortLoading s1 else s1)
      in if cachePolicy s2 = AlwaysNetwork
         then s2\<lparr>networkManager := setCache Nullptr (networkManager s2)\<rparr>
         else s2\<lparr>networkManager := setCache (diskCache_ptr s2) (networkManager s2)\<rparr>)"

definition setLoadingPixmap :: "pixmap \<Rightarrow> image_manager \<Rightarrow> image_manager" where
  "setLoadingPixmap pm s = s\<lparr>pixmapLoading := pm\<rparr>"

definition setEmptyPixmap :: "pixmap \<Rightarrow> image_manager \<Rightarrow> image_manager" where
  "setEmptyPixmap pm s = s\<lparr>pixmapEmpty := pm\<rparr>"

definition handleImageDownloaded :: "qt \<Rightarrow> url \<Rightarrow> pixmap \<Rightarrow> image_manager \<Rightarrow> image_manager" where
  "handleImageDownloaded q u pm s =
     (let s1 = (if u \<in> prefetchUrls s
                then s\<lparr>prefetchUrls := prefetchUrls s - {u}\<rparr>
                else called (Emit (ImageUpdated u)) s)
      in insertTileToMemoryCache q u pm s1)"

definition setCustomTileProvider :: "tile_provider option \<Rightarrow> image_manager \<Rightarrow> image_manager" where
  "setCustomTileProvider provider s = (abortLoading s)\<lparr>tileProvider := provider\<rparr>"

text \<open>
  What can happen to a manager: a call of one of its members, one of its slots run by a
  signal of the network manager, an event of the network manager itself, or the transport
  layer storing a download in the persistent cache.
\<close>

datatype operation =
    GetImage url
  | PrefetchImage url
  | CacheImageToDisk url
  | SetCachePolicy cache_policy
  | AbortLoading
  | SetCustomTileProvider "tile_provider option"
  | ConfigureDiskCache string int bool "url \<rightharpoonup> qbytearray"
  | ClearDiskCache
  | SetMemoryCacheCapacity int
  | SetTileSizePx int
  | SetLoadingPixmap pixmap
  | SetEmptyPixmap pixmap
  | HandleImageDownloaded url pixmap
  | HandleImageCached url
  | Network nm_event
  | DiskCacheStored url qbytearray

fun exec :: "qt \<Rightarrow> operation \<Rightarrow> image_manager \<Rightarrow> image_manager option" where
  "exec q (GetImage u) s = map_option snd (getImage q u s)"
| "exec q (PrefetchImage u) s = Some (prefetchImage q u s)"
| "exec q (CacheImageToDisk u) s = Some (snd (cacheImageToDisk u s))"
| "exec q (SetCachePolicy policy) s = Some (setCachePolicy policy s)"
| "exec q AbortLoading s = Some (abortLoading s)"
| "exec q (SetCustomTileProvider provider) s = Some (setCustomTileProvider provider s)"
| "exec q (ConfigureDiskCache dir capacityMiB mkpath_ok found) s =
     Some (snd (configureDiskCache dir capacityMiB mkpath_ok found s))"
| "exec q ClearDiskCache s = Some (clearDiskCache s)"
| "exec q (SetMemoryCacheCapacity capacityMiB) s = Some (setMemoryCacheCapacity capacityMiB s)"
| "exec q (SetTileSizePx tile_size) s = Some (setTileSizePx q tile_size s)"
| "exec q (SetLoadingPixmap pm) s = Some (setLoadingPixmap pm s)"
| "exec q (SetEmptyPixmap pm) s = Some (setEmptyPixmap pm s)"
| "exec q (HandleImageDownloaded u pm) s = Some (handleImageDownloaded q u pm s)"
| "exec q (HandleImageCached u) s = Some (handleImageCached u s)"
| "exec q (Network e) s = Some (s\<lparr>networkManager := nm_step e (networkManager s)\<rparr>)"
| "exec q (DiskCacheStored u bytes) s =
     Some (case diskCache s of
             None \<Rightarrow> s
           | Some dc \<Rightarrow> s\<lparr>diskCache := Some (dc\<lparr>cacheData := (cacheData dc)(u \<mapsto> bytes)\<rparr>)\<rparr>)"

fun run :: "qt \<Rightarrow> operation list \<Rightarrow> image_manager \<Rightarrow> image_manager option" where
  "run q [] s = Some s"
| "run q (op # ops) s = (case exec q op s of None \<Rightarrow> None | Some s1 \<Rightarrow> run q ops s1)"

text \<open>Every object the memory cache holds is a non-null pixmap.\<close>

definition no_null_entries :: "qcache \<Rightarrow> bool" where
  "no_null_entries c = list_all (\<lambda>n. \<not> isNull (node_object n)) (nodes c)"

text \<open>No key has two nodes.\<close>

definition keys_distinct :: "qcache \<Rightarrow> bool" where
  "keys_distinct c = distinct (map node_key (nodes c))"

definition cache_inv :: "qcache \<Rightarrow> bool" where
  "cache_inv c = (no_null_entries c \<and> keys_distinct c)"

section \<open>Concrete managers\<close>

text \<open>
  A small instance of the library functions: an injective stand-in for the digest, and a
  decoder that accepts exactly one byte sequence.
\<close>

definition example_qt :: qt where
  "example_qt =
     \<lparr>md5Hex = (\<lambda>text. text),
      fromImageReader = (\<lambda>bytes. if bytes = ''PNG'' then Pixmap 256 256 32 ''tile'' else NullPixmap),
      epsg = 3857,
      defaultDepth = 32\<rparr>"

definition example_provider :: tile_provider where
  "example_provider u =
     (if u = ''tile/1'' then (True, ''PNG'')
      else if u = ''tile/2'' then (True, ''garbage'')
      else (False, []))"

definition example_store :: "url \<rightharpoonup> qbytearray" where
  "example_store = [''tile/1'' \<mapsto> ''PNG'', ''tile/2'' \<mapsto> ''garbage'']"

definition example_manager :: image_manager where
  "example_manager = ImageManager_new example_qt 256"

definition provider_manager :: image_manager where
  "provider_manager = setCustomTileProvider (Some example_provider) example_manager"

definition disk_manager :: image_manager where
  "disk_manager = snd (configureDiskCache ''tiles'' 10 True example_store example_manager)"

definition online_manager :: image_manager where
  "online_manager = setCachePolicy AlwaysNetwork example_manager"

definition prefer_manager :: image_manager where
  "prefer_manager = setCachePolicy PreferCache disk_manager"

text \<open>A manager with a prefetch under way, and one with two tiles in the memory cache.\<close>

definition busy_manager :: image_manager where
  "busy_manager = prefetchImage example_qt ''tile/9'' prefer_manager"

definition large_tile :: pixmap where
  "large_tile = Pixmap 512 512 32 ''large tile''"

definition two_tiles_manager :: image_manager where
  "two_tiles_manager =
     handleImageDownloaded example_qt ''tile/2'' large_tile
       (handleImageDownloaded example_qt ''tile/1'' large_tile
          (setMemoryCacheCapacity 2 example_manager))"

section \<open>Properties of the memory cache\<close>

lemma trim_chain_stop: "ns = [] \<or> \<not> m < chain_cost ns \<Longrightarrow> trim_chain m ns = ns"
  by (subst trim_chain.simps) auto

lemma trim_chain_step:
  "ns \<noteq> [] \<Longrightarrow> m < chain_cost ns \<Longrightarrow> trim_chain m ns = trim_chain m (butlast ns)"
  by (subst trim_chain.simps) simp

lemma trim_chain_subset: "set (trim_chain m ns) \<subseteq> set ns"
proof (induction m ns rule: trim_chain.induct)
  case (1 m ns)
  show ?case
  proof (cases "ns \<noteq> [] \<and> m < chain_cost ns")
    case True
    then have "trim_chain m ns = trim_chain m (butlast ns)"
      by (simp add: trim_chain_step)
    moreover have "set (trim_chain m (butlast ns)) \<subseteq> set (butlast ns)"
      using "1.IH" True by simp
    moreover have "set (butlast ns) \<subseteq> set ns"
      by (auto dest: in_set_butlastD)
    ultimately show ?thesis by simp
  next
    case False
    then have "trim_chain m ns = ns"
      by (intro trim_chain_stop) blast
    then show ?thesis by simp
  qed
qed

lemma trim_chain_distinct:
  "distinct (map node_key ns) \<Longrightarrow> distinct (map node_key (trim_chain m ns))"
proof (induction m ns rule: trim_chain.induct)
  case (1 m ns)
  show ?case
  proof (cases "ns \<noteq> [] \<and> m < chain_cost ns")
    case True
    then have eq: "trim_chain m ns = trim_chain m (butlast ns)"
      by (simp add: trim_chain_step)
    have "distinct (map node_key (butlast ns))"
      using "1.prems" by (simp add: map_butlast distinct_butlast)
    then show ?thesis
      using "1.IH" True eq by simp
  next
    case False
    then have "trim_chain m ns = ns"
      by (intro trim_chain_stop) blast
    then show ?thesis using "1.prems" by simp
  qed
qed

lemma unlink_key_subset: "set (unlink_key k ns) \<subseteq> set ns"
  by (auto simp: unlink_key_def)

lemma unlink_key_distinct:
  "distinct (map node_key ns) \<Longrightarrow> distinct (map node_key (unlink_key k ns))"
  by (simp add: unlink_key_def distinct_map_filter)

lemma unlink_key_absent: "k \<notin> node_key ` set (unlink_key k ns)"
  by (auto simp: unlink_key_def)

lemma find_key_Some:
  "find (\<lambda>n. node_key n = k) ns = Some n \<Longrightarrow> n \<in> set ns \<and> node_key n = k"
  by (auto simp: find_Some_iff)

lemma relink_mset:
  "distinct (map node_key ns) \<Longrightarrow> find (\<lambda>n. node_key n = k) ns = Some n \<Longrightarrow>
   mset (n # unlink_key k ns) = mset ns"
proof (induction ns)
  case Nil
  then show ?case by simp
next
  case (Cons a ns)
  show ?case
  proof (cases "node_key a = k")
    case True
    then have "n = a" using Cons.prems(2) by simp
    moreover have "\<forall>x\<in>set ns. node_key x \<noteq> k"
      using Cons.prems(1) True by (auto simp: image_iff)
    then have "unlink_key k ns = ns"
      by (simp add: unlink_key_def filter_id_conv)
    ultimately show ?thesis using True by (simp add: unlink_key_def)
  next
    case False
    then have "find (\<lambda>n. node_key n = k) ns = Some n" using Cons.prems(2) by simp
    then have "mset (n # unlink_key k ns) = mset ns"
      using Cons.IH Cons.prems(1) by simp
    then show ?thesis using False by (simp add: unlink_key_def)
  qed
qed

lemma cache_inv_insert:
  assumes "cache_inv c" and "\<not> isNull obj"
  shows "cache_inv (qcache_insert k obj cost c)"
proof -
  let ?ns = "unlink_key k (nodes c)"
  have nn: "\<forall>n\<in>set (nodes c). \<not> isNull (node_object n)"
    using assms(1) by (simp add: cache_inv_def no_null_entries_def list_all_iff)
  have d: "distinct (map node_key ?ns)"
    using assms(1) by (simp add: cache_inv_def keys_distinct_def unlink_key_distinct)
  have sub: "set (trim_chain m ?ns) \<subseteq> set (nodes c)" for m
    using trim_chain_subset [of m ?ns] unlink_key_subset [of k "nodes c"] by blast
  have absent: "k \<notin> node_key ` set (trim_chain m ?ns)" for m
    using trim_chain_subset [of m ?ns] unlink_key_absent [of k "nodes c"] by blast
  have "no_null_entries (qcache_insert k obj cost c)"
    using nn sub assms(2) unlink_key_subset [of k "nodes c"]
    by (auto simp: qcache_insert_def qcache_remove_def qcache_trim_def Let_def
        no_null_entries_def list_all_iff node_object_def)
  moreover have "keys_distinct (qcache_insert k obj cost c)"
    using d absent trim_chain_distinct [OF d]
    by (auto simp: qcache_insert_def qcache_remove_def qcache_trim_def Let_def
        keys_distinct_def node_key_def)
  ultimately show ?thesis by (simp add: cache_inv_def)
qed

lemma cache_inv_object:
  assumes "cache_inv c"
  shows "cache_inv (snd (qcache_object k c))"
proof (cases "find (\<lambda>n. node_key n = k) (nodes c)")
  case None
  then show ?thesis using assms by (simp add: qcache_object_def)
next
  case (Some n)
  have mem: "n \<in> set (nodes c)" and key: "node_key n = k"
    using find_key_Some [OF Some] by simp_all
  have nn: "\<forall>n\<in>set (nodes c). \<not> isNull (node_object n)"
    using assms by (simp add: cache_inv_def no_null_entries_def list_all_iff)
  have d: "distinct (map node_key (unlink_key k (nodes c)))"
    using assms by (simp add: cache_inv_def keys_distinct_def unlink_key_distinct)
  have "no_null_entries (snd (qcache_object k c))"
    using Some nn mem unlink_key_subset [of k "nodes c"]
    by (auto simp: qcache_object_def no_null_entries_def list_all_iff)
  moreover have "keys_distinct (snd (qcache_object k c))"
    using Some d key unlink_key_absent [of k "nodes c"]
    by (simp add: qcache_object_def keys_distinct_def)
  ultimately show ?thesis by (simp add: cache_inv_def)
qed

lemma object_not_null:
  assumes "cache_inv c" and "fst (qcache_object k c) = Some pm"
  shows "\<not> isNull pm"
proof (cases "find (\<lambda>n. node_key n = k) (nodes c)")
  case None
  then show ?thesis using assms(2) by (simp add: qcache_object_def)
next
  case (Some n)
  then have "n \<in> set (nodes c)" and "pm = node_object n"
    using find_key_Some [OF Some] assms(2) by (simp_all add: qcache_object_def)
  then show ?thesis
    using assms(1) by (simp add: cache_inv_def no_null_entries_def list_all_iff)
qed

lemma cache_inv_setMaxCost:
  assumes "cache_inv c"
  shows "cache_inv (qcache_setMaxCost m c)"
proof -
  have "\<forall>n\<in>set (nodes c). \<not> isNull (node_object n)"
    using assms by (simp add: cache_inv_def no_null_entries_def list_all_iff)
  then have "no_null_entries (qcache_setMaxCost m c)"
    using trim_chain_subset [of m "nodes c"]
    by (auto simp: qcache_setMaxCost_def qcache_trim_def no_null_entries_def list_all_iff)
  moreover have "keys_distinct (qcache_setMaxCost m c)"
    using assms
    by (simp add: qcache_setMaxCost_def qcache_trim_def cache_inv_def keys_distinct_def
        trim_chain_distinct)
  ultimately show ?thesis by (simp add: cache_inv_def)
qed

lemma object_miss: "fst (qcache_object k c) = None \<Longrightarrow> qcache_object k c = (None, c)"
  by (simp add: qcache_object_def split: option.splits)


lemma find_unlink_other:
  "k' \<noteq> k \<Longrightarrow>
   find (\<lambda>n. node_key n = k') (unlink_key k ns) = find (\<lambda>n. node_key n = k') ns"
  by (induction ns) (auto simp: unlink_key_def)

lemma object_same_lookups:
  "fst (qcache_object k' (snd (qcache_object k c))) = fst (qcache_object k' c)"
proof (cases "find (\<lambda>n. node_key n = k) (nodes c)")
  case None
  then show ?thesis by (simp add: qcache_object_def)
next
  case (Some n)
  then have key: "node_key n = k" using find_key_Some by blast
  show ?thesis
  proof (cases "k' = k")
    case True
    then show ?thesis using Some key by (simp add: qcache_object_def)
  next
    case False
    then show ?thesis
      using Some key find_unlink_other [OF False, of "nodes c"]
      by (simp add: qcache_object_def split: option.splits)
  qed
qed

section \<open>Properties of the tile manager's operations\<close>

lemma hashTileUrl_tile_size:
  "tile_size_px s' = tile_size_px s \<Longrightarrow> hashTileUrl q s' u = hashTileUrl q s u"
  by (simp add: hashTileUrl_def)

lemma findTile_miss:
  "fst (findTileInMemoryCache q u s) = None \<Longrightarrow> findTileInMemoryCache q u s = (None, s)"
proof -
  assume "fst (findTileInMemoryCache q u s) = None"
  then have "fst (qcache_object (hashTileUrl q s u) (memoryCache s)) = None"
    by (simp add: findTileInMemoryCache_def split: prod.splits)
  then have "qcache_object (hashTileUrl q s u) (memoryCache s) = (None, memoryCache s)"
    by (rule object_miss)
  then show ?thesis by (simp add: findTileInMemoryCache_def)
qed

lemma findTile_state:
  "snd (findTileInMemoryCache q u s) =
     s\<lparr>memoryCache := snd (qcache_object (hashTileUrl q s u) (memoryCache s))\<rparr>"
  by (simp add: findTileInMemoryCache_def split: prod.splits)

lemma findTile_result:
  "fst (findTileInMemoryCache q u s) = fst (qcache_object (hashTileUrl q s u) (memoryCache s))"
  by (simp add: findTileInMemoryCache_def split: prod.splits)

lemma getImageFromDevice_eq:
  "getImageFromDevice q u d s =
     (fromImageReader q d,
      insertTileToMemoryCache q u (fromImageReader q d) (s\<lparr>prefetchUrls := prefetchUrls s - {u}\<rparr>))"
  by (simp add: getImageFromDevice_def insertTileToMemoryCache_def hashTileUrl_def Let_def)

lemma getImageInternal_provider_data:
  "tileProvider s = Some provider \<Longrightarrow> provider u = (True, d) \<Longrightarrow>
   getImageInternal q u s =
     (fromImageReader q d,
      insertTileToMemoryCache q u (fromImageReader q d)
        (s\<lparr>trace := trace s @ [GetTileData u], prefetchUrls := prefetchUrls s - {u}\<rparr>))"
  by (simp add: getImageInternal_def getImageFromDevice_eq called_def)

lemma getImageInternal_provider_nodata:
  "tileProvider s = Some provider \<Longrightarrow> provider u = (False, d) \<Longrightarrow>
   getImageInternal q u s = (pixmapEmpty s, s\<lparr>trace := trace s @ [GetTileData u]\<rparr>)"
  by (simp add: getImageInternal_def called_def)

lemma getImageInternal_disk_hit:
  "tileProvider s = None \<Longrightarrow> cachePolicy s \<noteq> AlwaysNetwork \<Longrightarrow>
   diskCache s = Some dc \<Longrightarrow> cacheData dc u = Some d \<Longrightarrow>
   getImageInternal q u s =
     (fromImageReader q d,
      insertTileToMemoryCache q u (fromImageReader q d)
        (s\<lparr>trace := trace s @ [DiskCacheData u], prefetchUrls := prefetchUrls s - {u}\<rparr>))"
  by (cases "cachePolicy s")
     (simp_all add: getImageInternal_def getImageFromDevice_eq diskCache_data_def called_def)

lemma getImageInternal_offline_no_disk:
  "tileProvider s = None \<Longrightarrow> cachePolicy s = AlwaysCache \<Longrightarrow> diskCache s = None \<Longrightarrow>
   getImageInternal q u s = (pixmapEmpty s, s)"
  by (simp add: getImageInternal_def diskCache_data_def)

lemma getImageInternal_offline_disk_miss:
  "tileProvider s = None \<Longrightarrow> cachePolicy s = AlwaysCache \<Longrightarrow>
   diskCache s = Some dc \<Longrightarrow> cacheData dc u = None \<Longrightarrow>
   getImageInternal q u s = (pixmapEmpty s, s\<lparr>trace := trace s @ [DiskCacheData u]\<rparr>)"
  by (simp add: getImageInternal_def diskCache_data_def called_def)

lemma getImageInternal_network:
  "tileProvider s = None \<Longrightarrow> cachePolicy s = AlwaysNetwork \<Longrightarrow>
   getImageInternal q u s =
     (pixmapLoading s,
      s\<lparr>networkManager := downloadImage u False (networkManager s),
        trace := trace s @ [Emit (DownloadImage u False)]\<rparr>)"
  by (simp add: getImageInternal_def emit_downloadImage_def called_def)

lemma getImageInternal_prefer_no_disk:
  "tileProvider s = None \<Longrightarrow> cachePolicy s = PreferCache \<Longrightarrow> diskCache s = None \<Longrightarrow>
   getImageInternal q u s =
     (pixmapLoading s,
      s\<lparr>networkManager := downloadImage u False (networkManager s),
        trace := trace s @ [Emit (DownloadImage u False)]\<rparr>)"
  by (simp add: getImageInternal_def diskCache_data_def emit_downloadImage_def called_def)

lemma getImageInternal_prefer_disk_miss:
  "tileProvider s = None \<Longrightarrow> cachePolicy s = PreferCache \<Longrightarrow>
   diskCache s = Some dc \<Longrightarrow> cacheData dc u = None \<Longrightarrow>
   getImageInternal q u s =
     (pixmapLoading s,
      s\<lparr>networkManager := downloadImage u False (networkManager s),
        trace := trace s @ [DiskCacheData u, Emit (DownloadImage u False)]\<rparr>)"
  by (simp add: getImageInternal_def diskCache_data_def emit_downloadImage_def called_def)

lemma getImageInternal_cases:
  obtains
    (device) d cs where
      "getImageInternal q u s =
         (fromImageReader q d,
          insertTileToMemoryCache q u (fromImageReader q d)
            (s\<lparr>trace := trace s @ cs, prefetchUrls := prefetchUrls s - {u}\<rparr>))"
  | (empty) cs where
      "getImageInternal q u s = (pixmapEmpty s, s\<lparr>trace := trace s @ cs\<rparr>)"
  | (download) cs where
      "getImageInternal q u s =
         (pixmapLoading s,
          s\<lparr>networkManager := downloadImage u False (networkManager s),
            trace := trace s @ cs\<rparr>)"
proof (cases "tileProvider s")
  case (Some provider)
  obtain ok d where p: "provider u = (ok, d)" by (cases "provider u")
  show ?thesis
  proof (cases ok)
    case True
    then show ?thesis
      using getImageInternal_provider_data [OF Some, where u = u and d = d and q = q] p device by simp
  next
    case False
    then show ?thesis
      using getImageInternal_provider_nodata [OF Some, where u = u and d = d and q = q] p empty by simp
  qed
next
  case None
  show ?thesis
  proof (cases "cachePolicy s = AlwaysNetwork")
    case True
    then show ?thesis using getImageInternal_network [OF None True] download by simp
  next
    case online: False
    show ?thesis
    proof (cases "diskCache s")
      case no_disk: None
      show ?thesis
      proof (cases "cachePolicy s")
        case AlwaysCache
        have "getImageInternal q u s = (pixmapEmpty s, s\<lparr>trace := trace s @ []\<rparr>)"
          using getImageInternal_offline_no_disk [OF None AlwaysCache no_disk] by simp
        then show ?thesis by (rule empty)
      next
        case PreferCache
        then show ?thesis
          using getImageInternal_prefer_no_disk [OF None PreferCache no_disk] download by simp
      next
        case AlwaysNetwork
        then show ?thesis using online by simp
      qed
    next
      case (Some dc)
      show ?thesis
      proof (cases "cacheData dc u")
        case (Some d)
        then show ?thesis
          using getImageInternal_disk_hit [OF None online \<open>diskCache s = Some dc\<close> Some] device
          by simp
      next
        case miss: None
        show ?thesis
        proof (cases "cachePolicy s")
          case AlwaysCache
          then show ?thesis
            using getImageInternal_offline_disk_miss [OF None AlwaysCache Some miss] empty
            by simp
        next
          case PreferCache
          then show ?thesis
            using getImageInternal_prefer_disk_miss [OF None PreferCache Some miss] download
            by simp
        next
          case AlwaysNetwork
          then show ?thesis using online by simp
        qed
      qed
    qed
  qed
qed

lemma insertTile_cache_inv:
  "cache_inv (memoryCache s) \<Longrightarrow> cache_inv (memoryCache (insertTileToMemoryCache q u pm s))"
  by (simp add: insertTileToMemoryCache_def cache_inv_insert)

lemma insertTile_networkManager [simp]:
  "networkManager (insertTileToMemoryCache q u pm s) = networkManager s"
  by (simp add: insertTileToMemoryCache_def)

lemma findTile_cache_inv:
  "cache_inv (memoryCache s) \<Longrightarrow> cache_inv (memoryCache (snd (findTileInMemoryCache q u s)))"
  by (simp add: findTile_state cache_inv_object)

lemma findTile_not_null:
  "cache_inv (memoryCache s) \<Longrightarrow> fst (findTileInMemoryCache q u s) = Some pm \<Longrightarrow> \<not> isNull pm"
  using object_not_null by (simp add: findTile_result)

lemma getImageInternal_cache_inv:
  assumes "cache_inv (memoryCache s)"
  shows "cache_inv (memoryCache (snd (getImageInternal q u s)))"
proof (cases rule: getImageInternal_cases [of q u s])
  case (device d cs)
  have "cache_inv (memoryCache (s\<lparr>trace := trace s @ cs, prefetchUrls := prefetchUrls s - {u}\<rparr>))"
    using assms by simp
  then show ?thesis using device insertTile_cache_inv by simp
next
  case (empty cs)
  then show ?thesis using assms by simp
next
  case (download cs)
  then show ?thesis using assms by simp
qed

lemma getImageInternal_networkManager:
  "networkManager (snd (getImageInternal q u s)) = networkManager s \<or>
   networkManager (snd (getImageInternal q u s)) = downloadImage u False (networkManager s)"
  by (cases rule: getImageInternal_cases [of q u s]) simp_all

section \<open>Properties of the download coordinator\<close>

lemma outstanding_not_downloading: "\<not> isDownloading nm u \<Longrightarrow> outstanding nm u = 0"
  by (auto simp: isDownloading_def outstanding_def filter_empty_conv)

lemma outstanding_requestDownload:
  "outstanding (requestDownload u' c nm) u = outstanding nm u + (if u' = u then 1 else 0)"
  by (simp add: requestDownload_def outstanding_def)

lemma outstanding_downloadImage:
  "outstanding nm u \<le> 1 \<Longrightarrow> outstanding (downloadImage u' c nm) u \<le> 1"
  by (cases "u' = u")
     (simp_all add: downloadImage_def outstanding_requestDownload outstanding_not_downloading)

lemma outstanding_filter:
  "length (filter (\<lambda>e. P e \<and> snd e = u) xs) \<le> length (filter (\<lambda>e. snd e = u) xs)"
  by (induction xs) auto

lemma outstanding_downloadFinished: "outstanding (downloadFinished r nm) u \<le> outstanding nm u"
  by (simp add: downloadFinished_def outstanding_def outstanding_filter)

lemma outstanding_abortTimeoutedRequests:
  "outstanding (abortTimeoutedRequests stale nm) u \<le> outstanding nm u"
  by (simp add: abortTimeoutedRequests_def outstanding_def outstanding_filter)

lemma outstanding_abortDownloads [simp]: "outstanding (abortDownloads nm) u = 0"
  by (simp add: abortDownloads_def outstanding_def)

lemma outstanding_setCache [simp]: "outstanding (setCache p nm) u = outstanding nm u"
  by (simp add: setCache_def outstanding_def)

lemma outstanding_nm_step: "outstanding nm u \<le> 1 \<Longrightarrow> outstanding (nm_step e nm) u \<le> 1"
proof (cases e)
  case (DownloadImageEv u' c)
  assume "outstanding nm u \<le> 1"
  then show ?thesis using DownloadImageEv outstanding_downloadImage [of nm u u' c] by simp
next
  case (DownloadFinishedEv r)
  assume "outstanding nm u \<le> 1"
  then show ?thesis
    using DownloadFinishedEv outstanding_downloadFinished [of r nm u] by simp
next
  case AbortDownloadsEv
  then show ?thesis by simp
next
  case (AbortTimeoutedRequestsEv stale)
  assume "outstanding nm u \<le> 1"
  then show ?thesis
    using AbortTimeoutedRequestsEv outstanding_abortTimeoutedRequests [of stale nm u] by simp
next
  case (SetCacheEv p)
  assume "outstanding nm u \<le> 1"
  then show ?thesis using SetCacheEv by simp
qed

lemma outstanding_nm_run: "outstanding nm u \<le> 1 \<Longrightarrow> outstanding (nm_run es nm) u \<le> 1"
proof (induction es arbitrary: nm)
  case Nil
  then show ?case by simp
next
  case (Cons e es)
  have "outstanding (nm_step e nm) u \<le> 1"
    using Cons.prems by (rule outstanding_nm_step)
  then show ?case using Cons.IH by simp
qed

section \<open>What every reachable state of the manager satisfies\<close>

lemma getImage_miss:
  "fst (findTileInMemoryCache q u s) = None \<Longrightarrow> getImage q u s = Some (getImageInternal q u s)"
  using findTile_miss [of q u s] by (simp add: getImage_def)

lemma getImage_hit:
  "fst (findTileInMemoryCache q u s) = Some pm \<Longrightarrow> \<not> isNull pm \<Longrightarrow>
   getImage q u s = Some (pm, snd (findTileInMemoryCache q u s))"
  by (cases "findTileInMemoryCache q u s") (simp add: getImage_def)

lemma getImage_assert_fails:
  "fst (findTileInMemoryCache q u s) = Some pm \<Longrightarrow> isNull pm \<Longrightarrow> getImage q u s = None"
  by (cases "findTileInMemoryCache q u s") (simp add: getImage_def)

lemma prefetchImage_miss:
  "fst (findTileInMemoryCache q u s) = None \<Longrightarrow>
   prefetchImage q u s =
     snd (getImageInternal q u (s\<lparr>prefetchUrls := insert u (prefetchUrls s)\<rparr>))"
  using findTile_miss [of q u s] by (simp add: prefetchImage_def)

lemma prefetchImage_hit:
  "fst (findTileInMemoryCache q u s) = Some pm \<Longrightarrow>
   prefetchImage q u s = snd (findTileInMemoryCache q u s)"
  by (cases "findTileInMemoryCache q u s") (simp add: prefetchImage_def)

lemma prefetchImage_cache_inv:
  assumes "cache_inv (memoryCache s)"
  shows "cache_inv (memoryCache (prefetchImage q u s))"
proof (cases "fst (findTileInMemoryCache q u s)")
  case None
  then have "prefetchImage q u s =
      snd (getImageInternal q u (s\<lparr>prefetchUrls := insert u (prefetchUrls s)\<rparr>))"
    by (rule prefetchImage_miss)
  then show ?thesis
    using getImageInternal_cache_inv [of "s\<lparr>prefetchUrls := insert u (prefetchUrls s)\<rparr>" q u] assms
    by simp
next
  case (Some pm)
  then have "prefetchImage q u s = snd (findTileInMemoryCache q u s)"
    by (rule prefetchImage_hit)
  then show ?thesis using findTile_cache_inv [OF assms] by simp
qed

lemma getImage_cache_inv:
  assumes "cache_inv (memoryCache s)"
  shows "\<exists>pm s'. getImage q u s = Some (pm, s') \<and> cache_inv (memoryCache s')"
proof (cases "fst (findTileInMemoryCache q u s)")
  case None
  then have "getImage q u s = Some (getImageInternal q u s)"
    by (rule getImage_miss)
  then show ?thesis
    using getImageInternal_cache_inv [OF assms, of q u]
    by (cases "getImageInternal q u s") simp
next
  case (Some pm)
  then have "\<not> isNull pm" using findTile_not_null [OF assms] by simp
  then have "getImage q u s = Some (pm, snd (findTileInMemoryCache q u s))"
    using Some by (simp add: getImage_hit)
  then show ?thesis using findTile_cache_inv [OF assms] by simp
qed

lemma rawImageFromDiskCache_state:
  "\<exists>cs. snd (rawImageFromDiskCache u s) = s\<lparr>trace := trace s @ cs\<rparr> \<and>
        set cs \<subseteq> {GetTileData u, DiskCacheData u}"
proof (cases "tileProvider s")
  case (Some provider)
  then have "snd (rawImageFromDiskCache u s) = s\<lparr>trace := trace s @ [GetTileData u]\<rparr>"
    by (simp add: rawImageFromDiskCache_def called_def)
  then show ?thesis by (intro exI [of _ "[GetTileData u]"]) simp
next
  case None
  show ?thesis
  proof (cases "diskCache s")
    case no_disk: None
    then have "snd (rawImageFromDiskCache u s) = s\<lparr>trace := trace s @ []\<rparr>"
      using None by (simp add: rawImageFromDiskCache_def diskCache_data_def)
    then show ?thesis by (intro exI [of _ "[]"]) simp
  next
    case (Some dc)
    then have "snd (rawImageFromDiskCache u s) = s\<lparr>trace := trace s @ [DiskCacheData u]\<rparr>"
      using None
      by (simp add: rawImageFromDiskCache_def diskCache_data_def called_def split: option.splits)
    then show ?thesis by (intro exI [of _ "[DiskCacheData u]"]) simp
  qed
qed

lemma cacheImageToDisk_memoryCache [simp]:
  "memoryCache (snd (cacheImageToDisk u s)) = memoryCache s"
proof -
  obtain cs where "snd (rawImageFromDiskCache u s) = s\<lparr>trace := trace s @ cs\<rparr>"
    using rawImageFromDiskCache_state by blast
  then show ?thesis
    by (cases "rawImageFromDiskCache u s")
       (simp add: cacheImageToDisk_def handleImageCached_def emit_downloadImage_def called_def)
qed

lemma cacheImageToDisk_networkManager:
  "networkManager (snd (cacheImageToDisk u s)) = networkManager s \<or>
   networkManager (snd (cacheImageToDisk u s)) = downloadImage u True (networkManager s)"
proof -
  obtain cs where "snd (rawImageFromDiskCache u s) = s\<lparr>trace := trace s @ cs\<rparr>"
    using rawImageFromDiskCache_state by blast
  then show ?thesis
    by (cases "rawImageFromDiskCache u s")
       (simp add: cacheImageToDisk_def handleImageCached_def emit_downloadImage_def called_def)
qed

lemma findTile_networkManager [simp]:
  "networkManager (snd (findTileInMemoryCache q u s)) = networkManager s"
  by (simp add: findTile_state)

lemma handleImageDownloaded_cache_inv:
  "cache_inv (memoryCache s) \<Longrightarrow> cache_inv (memoryCache (handleImageDownloaded q u pm s))"
  by (simp add: handleImageDownloaded_def called_def insertTile_cache_inv)

lemma setCachePolicy_memoryCache [simp]:
  "memoryCache (setCachePolicy policy s) = memoryCache s"
  by (simp add: setCachePolicy_def abortLoading_def Let_def)

lemma setCachePolicy_outstanding:
  "outstanding (networkManager s) u \<le> 1 \<Longrightarrow>
   outstanding (networkManager (setCachePolicy policy s)) u \<le> 1"
  by (simp add: setCachePolicy_def abortLoading_def Let_def)

lemma exec_cache_inv:
  assumes "cache_inv (memoryCache s)"
  shows "\<exists>s'. exec q op s = Some s' \<and> cache_inv (memoryCache s')"
proof (cases op)
  case (GetImage u)
  then show ?thesis using getImage_cache_inv [OF assms, of q u] by auto
next
  case (PrefetchImage u)
  then show ?thesis using prefetchImage_cache_inv [OF assms] by simp
next
  case (CacheImageToDisk u)
  then show ?thesis using assms by simp
next
  case (SetCachePolicy policy)
  then show ?thesis using assms by simp
next
  case AbortLoading
  then show ?thesis using assms by (simp add: abortLoading_def)
next
  case (SetCustomTileProvider provider)
  then show ?thesis using assms by (simp add: setCustomTileProvider_def abortLoading_def)
next
  case (ConfigureDiskCache dir capacityMiB mkpath_ok found)
  then show ?thesis using assms by (simp add: configureDiskCache_def Let_def)
next
  case ClearDiskCache
  then show ?thesis using assms by (simp add: clearDiskCache_def split: option.splits)
next
  case (SetMemoryCacheCapacity capacityMiB)
  then show ?thesis using assms by (simp add: setMemoryCacheCapacity_def cache_inv_setMaxCost)
next
  case (SetTileSizePx tile_size)
  then show ?thesis using assms by (simp add: setTileSizePx_def setupPlaceholderPixmaps_def)
next
  case (SetLoadingPixmap pm)
  then show ?thesis using assms by (simp add: setLoadingPixmap_def)
next
  case (SetEmptyPixmap pm)
  then show ?thesis using assms by (simp add: setEmptyPixmap_def)
next
  case (HandleImageDownloaded u pm)
  then show ?thesis using handleImageDownloaded_cache_inv [OF assms] by simp
next
  case (HandleImageCached u)
  then show ?thesis using assms by (simp add: handleImageCached_def called_def)
next
  case (Network e)
  then show ?thesis using assms by simp
next
  case (DiskCacheStored u bytes)
  then show ?thesis using assms by (simp split: option.splits)
qed

lemma exec_outstanding:
  assumes "outstanding (networkManager s) u \<le> 1" and "exec q op s = Some s'"
  shows "outstanding (networkManager s') u \<le> 1"
proof (cases op)
  case (GetImage v)
  show ?thesis
  proof (cases "fst (findTileInMemoryCache q v s)")
    case None
    then have "s' = snd (getImageInternal q v s)"
      using assms(2) GetImage by (simp add: getImage_miss)
    then show ?thesis
      using getImageInternal_networkManager [of q v s] assms(1)
        outstanding_downloadImage [OF assms(1), of v False]
      by auto
  next
    case (Some pm)
    then have "s' = snd (findTileInMemoryCache q v s)"
      using assms(2) GetImage
      by (cases "findTileInMemoryCache q v s") (simp add: getImage_def split: if_splits)
    then show ?thesis using assms(1) by simp
  qed
next
  case (PrefetchImage v)
  show ?thesis
  proof (cases "fst (findTileInMemoryCache q v s)")
    case None
    let ?s1 = "s\<lparr>prefetchUrls := insert v (prefetchUrls s)\<rparr>"
    have "s' = snd (getImageInternal q v ?s1)"
      using assms(2) PrefetchImage prefetchImage_miss [OF None] by simp
    then show ?thesis
      using getImageInternal_networkManager [of q v ?s1] assms(1)
        outstanding_downloadImage [OF assms(1), of v False]
      by auto
  next
    case (Some pm)
    then have "s' = snd (findTileInMemoryCache q v s)"
      using assms(2) PrefetchImage prefetchImage_hit [OF Some] by simp
    then show ?thesis using assms(1) by simp
  qed
next
  case (CacheImageToDisk v)
  then have "s' = snd (cacheImageToDisk v s)" using assms(2) by simp
  then show ?thesis
    using cacheImageToDisk_networkManager [of v s] assms(1)
      outstanding_downloadImage [OF assms(1), of v True]
    by auto
next
  case (SetCachePolicy policy)
  then show ?thesis using assms setCachePolicy_outstanding by auto
next
  case AbortLoading
  then show ?thesis using assms by (auto simp: abortLoading_def)
next
  case (SetCustomTileProvider provider)
  then show ?thesis using assms by (auto simp: setCustomTileProvider_def abortLoading_def)
next
  case (ConfigureDiskCache dir capacityMiB mkpath_ok found)
  then show ?thesis using assms by (auto simp: configureDiskCache_def Let_def split: if_splits)
next
  case ClearDiskCache
  then show ?thesis using assms by (auto simp: clearDiskCache_def split: option.splits)
next
  case (SetMemoryCacheCapacity capacityMiB)
  then show ?thesis using assms by (auto simp: setMemoryCacheCapacity_def)
next
  case (SetTileSizePx tile_size)
  then show ?thesis using assms by (auto simp: setTileSizePx_def setupPlaceholderPixmaps_def)
next
  case (SetLoadingPixmap pm)
  then show ?thesis using assms by (auto simp: setLoadingPixmap_def)
next
  case (SetEmptyPixmap pm)
  then show ?thesis using assms by (auto simp: setEmptyPixmap_def)
next
  case (HandleImageDownloaded v pm)
  then show ?thesis using assms by (auto simp: handleImageDownloaded_def called_def)
next
  case (HandleImageCached v)
  then show ?thesis using assms by (auto simp: handleImageCached_def called_def)
next
  case (Network e)
  then show ?thesis using assms outstanding_nm_step [OF assms(1), of e] by auto
next
  case (DiskCacheStored v bytes)
  then show ?thesis using assms by (auto split: option.splits)
qed

lemma run_invariant:
  assumes "cache_inv (memoryCache s)" and "\<forall>u. outstanding (networkManager s) u \<le> 1"
  shows "\<exists>s'. run q ops s = Some s' \<and> cache_inv (memoryCache s') \<and>
              (\<forall>u. outstanding (networkManager s') u \<le> 1)"
  using assms
proof (induction ops arbitrary: s)
  case Nil
  then show ?case by simp
next
  case (Cons op ops)
  obtain s1 where s1: "exec q op s = Some s1" "cache_inv (memoryCache s1)"
    using exec_cache_inv [OF Cons.prems(1)] by blast
  have "\<forall>u. outstanding (networkManager s1) u \<le> 1"
    using exec_outstanding [OF _ s1(1)] Cons.prems(2) by blast
  then show ?case using Cons.IH [OF s1(2)] s1(1) by simp
qed

lemma ImageManager_new_invariant:
  "cache_inv (memoryCache (ImageManager_new q tile_size)) \<and>
   (\<forall>u. outstanding (networkManager (ImageManager_new q tile_size)) u \<le> 1)"
  by (simp add: ImageManager_new_def setupPlaceholderPixmaps_def setMemoryCacheCapacity_def
      qcache_setMaxCost_def qcache_trim_def trim_chain_stop cache_inv_def no_null_entries_def
      keys_distinct_def NetworkManager_new_def outstanding_def)

lemma reachable_invariant:
  "\<exists>s. run q ops (ImageManager_new q tile_size) = Some s \<and> cache_inv (memoryCache s) \<and>
       (\<forall>u. outstanding (networkManager s) u \<le> 1)"
  using run_invariant ImageManager_new_invariant by blast

section \<open>The concrete managers, evaluated\<close>

lemma example_manager_eq:
  "example_manager =
     \<lparr>tile_size_px = 256,
      memoryCache = \<lparr>nodes = [], maxCost = 31457280\<rparr>,
      diskCache = None,
      cachePolicy = AlwaysCache,
      tileProvider = None,
      prefetchUrls = {},
      pixmapLoading = Pixmap 256 256 32 ''LOADING...'',
      pixmapEmpty = Pixmap 256 256 32 [],
      networkManager = \<lparr>downloadRequests = [], cache = Nullptr, started = 0\<rparr>,
      trace = []\<rparr>"
  by (simp add: example_manager_def ImageManager_new_def setupPlaceholderPixmaps_def
      setMemoryCacheCapacity_def qcache_setMaxCost_def qcache_trim_def trim_chain_stop
      NetworkManager_new_def kDefaultPixmapCacheSizeMiB_def QPixmap_sized_def example_qt_def)

lemma provider_manager_eq:
  "provider_manager = example_manager\<lparr>tileProvider := Some example_provider\<rparr>"
  by (simp add: provider_manager_def setCustomTileProvider_def abortLoading_def abortDownloads_def
      example_manager_eq)

lemma disk_manager_eq:
  "disk_manager =
     example_manager
       \<lparr>diskCache := Some \<lparr>cacheDirectory = ''tiles'', maximumCacheSize = 10485760,
                            cacheData = example_store\<rparr>\<rparr>"
  by (simp add: disk_manager_def configureDiskCache_def example_manager_eq)

lemma online_manager_eq:
  "online_manager = example_manager\<lparr>cachePolicy := AlwaysNetwork\<rparr>"
  by (simp add: online_manager_def setCachePolicy_def setCache_def example_manager_eq)

lemma prefer_manager_eq:
  "prefer_manager =
     disk_manager
       \<lparr>cachePolicy := PreferCache,
        networkManager := \<lparr>downloadRequests = [], cache = DiskCachePtr, started = 0\<rparr>\<rparr>"
  by (simp add: prefer_manager_def setCachePolicy_def setCache_def diskCache_ptr_def
      disk_manager_eq example_manager_eq)

lemma example_miss:
  "fst (findTileInMemoryCache example_qt u example_manager) = None"
  "fst (findTileInMemoryCache example_qt u provider_manager) = None"
  "fst (findTileInMemoryCache example_qt u disk_manager) = None"
  "fst (findTileInMemoryCache example_qt u online_manager) = None"
  "fst (findTileInMemoryCache example_qt u prefer_manager) = None"
  by (simp_all add: findTile_result qcache_object_def prefer_manager_eq online_manager_eq
      disk_manager_eq provider_manager_eq example_manager_eq)


lemma insertTile_null: "isNull pm \<Longrightarrow> insertTileToMemoryCache q u pm s = s"
  by (simp add: insertTileToMemoryCache_def)

section \<open>The miss path of \<^verbatim>\<open>getImage\<close>\<close>


lemma insertTile_fields [simp]:
  "trace (insertTileToMemoryCache q u pm s) = trace s"
  "prefetchUrls (insertTileToMemoryCache q u pm s) = prefetchUrls s"
  "diskCache (insertTileToMemoryCache q u pm s) = diskCache s"
  "cachePolicy (insertTileToMemoryCache q u pm s) = cachePolicy s"
  "tileProvider (insertTileToMemoryCache q u pm s) = tileProvider s"
  "tile_size_px (insertTileToMemoryCache q u pm s) = tile_size_px s"
  "pixmapEmpty (insertTileToMemoryCache q u pm s) = pixmapEmpty s"
  "pixmapLoading (insertTileToMemoryCache q u pm s) = pixmapLoading s"
  by (simp_all add: insertTileToMemoryCache_def)


section \<open>The hit path of \<^verbatim>\<open>getImage\<close>\<close>

text \<open>
  Claim C2. In every state the manager can reach, \<^verbatim>\<open>getImage\<close> on a url found in the memory
  cache returns the image cached under the url's key (the assertion on the hit path holds),
  and it makes no call: the state afterwards is the state before with nothing but the
  memory cache touched by the lookup, so the trace of emitted signals, provider queries and
  reads of the persistent cache is the one before, and so are the network manager, the
  persistent cache and the prefetch set.
\<close>

theorem getImage_hit_no_calls:
  assumes "run q ops (ImageManager_new q tile_size) = Some s"
    and "fst (findTileInMemoryCache q u s) = Some pm"
  shows
    "getImage q u s =
       Some (pm, s\<lparr>memoryCache := snd (qcache_object (hashTileUrl q s u) (memoryCache s))\<rparr>) \<and>
     (\<exists>cost. (hashTileUrl q s u, pm, cost) \<in> set (nodes (memoryCache s))) \<and>
     (\<forall>r s'. getImage q u s = Some (r, s') \<longrightarrow>
        r = pm \<and> trace s' = trace s \<and> networkManager s' = networkManager s \<and>
        diskCache s' = diskCache s \<and> prefetchUrls s' = prefetchUrls s)"
proof -
  have "cache_inv (memoryCache s)"
    using reachable_invariant [of q ops tile_size] assms(1) by auto
  then have "\<not> isNull pm"
    using assms(2) by (rule findTile_not_null)
  then have hit: "getImage q u s = Some (pm, snd (findTileInMemoryCache q u s))"
    using assms(2) by (simp add: getImage_hit)
  obtain n where n: "find (\<lambda>n. node_key n = hashTileUrl q s u) (nodes (memoryCache s)) = Some n"
    and pm: "pm = node_object n"
    using assms(2)
    by (auto simp: findTile_result qcache_object_def split: option.splits)
  have "n \<in> set (nodes (memoryCache s))" and "node_key n = hashTileUrl q s u"
    using find_key_Some [OF n] by simp_all
  moreover obtain k obj c where "n = (k, obj, c)"
    by (cases n)
  ultimately have "(hashTileUrl q s u, pm, node_cost n) \<in> set (nodes (memoryCache s))"
    using pm by (simp add: node_key_def node_object_def node_cost_def)
  then show ?thesis
    using hit by (auto simp: findTile_state)
qed

theorem getImage_hit_no_calls_witness:
  "run example_qt [HandleImageDownloaded ''tile/1'' (Pixmap 256 256 32 ''tile''),
                   SetCachePolicy AlwaysNetwork]
     (ImageManager_new example_qt 256) =
     Some (online_manager
             \<lparr>memoryCache :=
                \<lparr>nodes = [(''tile/13857256'', Pixmap 256 256 32 ''tile'', 262144)],
                 maxCost = 31457280\<rparr>,
              trace := [Emit (ImageUpdated ''tile/1'')]\<rparr>) \<and>
   fst (findTileInMemoryCache example_qt ''tile/1''
          (online_manager
             \<lparr>memoryCache :=
                \<lparr>nodes = [(''tile/13857256'', Pixmap 256 256 32 ''tile'', 262144)],
                 maxCost = 31457280\<rparr>,
              trace := [Emit (ImageUpdated ''tile/1'')]\<rparr>)) =
     Some (Pixmap 256 256 32 ''tile'') \<and>
   getImage example_qt ''tile/1''
     (online_manager
        \<lparr>memoryCache :=
           \<lparr>nodes = [(''tile/13857256'', Pixmap 256 256 32 ''tile'', 262144)],
            maxCost = 31457280\<rparr>,
         trace := [Emit (ImageUpdated ''tile/1'')]\<rparr>) =
     Some (Pixmap 256 256 32 ''tile'',
           online_manager
             \<lparr>memoryCache :=
                \<lparr>nodes = [(''tile/13857256'', Pixmap 256 256 32 ''tile'', 262144)],
                 maxCost = 31457280\<rparr>,
              trace := [Emit (ImageUpdated ''tile/1'')]\<rparr>)"
proof -
  let ?s = "online_manager
             \<lparr>memoryCache :=
                \<lparr>nodes = [(''tile/13857256'', Pixmap 256 256 32 ''tile'', 262144)],
                 maxCost = 31457280\<rparr>,
              trace := [Emit (ImageUpdated ''tile/1'')]\<rparr>"
  have key: "hashTileUrl example_qt s ''tile/1'' = ''tile/13857256''" if "tile_size_px s = 256" for s
    using that
    by (simp add: hashTileUrl_def example_qt_def QString_number_def string_of_nat.simps
        digit_char_def)
  have r: "run example_qt [HandleImageDownloaded ''tile/1'' (Pixmap 256 256 32 ''tile''),
                   SetCachePolicy AlwaysNetwork] (ImageManager_new example_qt 256) = Some ?s"
    by (simp add: key handleImageDownloaded_def called_def insertTileToMemoryCache_def
        qcache_insert_def qcache_remove_def qcache_trim_def unlink_key_def trim_chain_stop
        chain_cost_def pixmap_cost_def setCachePolicy_def setCache_def online_manager_eq
        example_manager_eq example_manager_eq [unfolded example_manager_def])
  have f: "fst (findTileInMemoryCache example_qt ''tile/1'' ?s) = Some (Pixmap 256 256 32 ''tile'')"
    by (simp add: findTile_result key qcache_object_def node_key_def node_object_def
        online_manager_eq example_manager_eq)
  show ?thesis
    using getImage_hit_no_calls [OF r f] r f
    by (simp add: key qcache_object_def online_manager_eq example_manager_eq unlink_key_def
        node_key_def)
qed

section \<open>Offline operation\<close>

text \<open>
  Claim C3. Under \<^verbatim>\<open>AlwaysCache\<close> with no tile provider bound, \<^verbatim>\<open>getImage\<close> on a url that is not
  in the memory cache emits no signal and leaves the network manager as it was: the only
  call it can make is a read of the persistent cache. When the url is not in the persistent
  cache either (there is no cache object, or it has no data for the url), the result is the
  empty-tile placeholder and the memory cache is unchanged.
\<close>

theorem getImage_offline_no_download:
  assumes "fst (findTileInMemoryCache q u s) = None"
    and "cachePolicy s = AlwaysCache"
    and "tileProvider s = None"
  shows
    "\<exists>pm s' cs. getImage q u s = Some (pm, s') \<and>
        networkManager s' = networkManager s \<and>
        trace s' = trace s @ cs \<and> set cs \<subseteq> {DiskCacheData u} \<and>
        ((case diskCache s of None \<Rightarrow> None | Some dc \<Rightarrow> cacheData dc u) = None \<longrightarrow>
           pm = pixmapEmpty s \<and> s' = s\<lparr>trace := trace s @ cs\<rparr>)"
proof (cases "diskCache s")
  case None
  then have "getImage q u s = Some (pixmapEmpty s, s)"
    using assms getImageInternal_offline_no_disk [of s q u] by (simp add: getImage_miss)
  then show ?thesis
    by (intro exI [of _ "pixmapEmpty s"] exI [of _ s] exI [of _ "[]"]) simp
next
  case (Some dc)
  show ?thesis
  proof (cases "cacheData dc u")
    case None
    then have "getImage q u s = Some (pixmapEmpty s, s\<lparr>trace := trace s @ [DiskCacheData u]\<rparr>)"
      using assms Some getImageInternal_offline_disk_miss [of s dc u q]
      by (simp add: getImage_miss)
    then show ?thesis
      by (intro exI [of _ "pixmapEmpty s"] exI [of _ "s\<lparr>trace := trace s @ [DiskCacheData u]\<rparr>"]
          exI [of _ "[DiskCacheData u]"]) simp
  next
    case (Some d)
    then have "getImage q u s =
        Some (fromImageReader q d,
              insertTileToMemoryCache q u (fromImageReader q d)
                (s\<lparr>trace := trace s @ [DiskCacheData u],
                   prefetchUrls := prefetchUrls s - {u}\<rparr>))"
      using assms \<open>diskCache s = Some dc\<close> getImageInternal_disk_hit [of s dc u d q]
      by (simp add: getImage_miss)
    then show ?thesis
      using Some \<open>diskCache s = Some dc\<close>
      by (intro exI [of _ "fromImageReader q d"]
          exI [of _ "insertTileToMemoryCache q u (fromImageReader q d)
                (s\<lparr>trace := trace s @ [DiskCacheData u],
                   prefetchUrls := prefetchUrls s - {u}\<rparr>)"]
          exI [of _ "[DiskCacheData u]"]) simp
  qed
qed

theorem getImage_offline_no_download_witness:
  "fst (findTileInMemoryCache example_qt ''tile/9'' disk_manager) = None \<and>
   cachePolicy disk_manager = AlwaysCache \<and> tileProvider disk_manager = None \<and>
   (case diskCache disk_manager of None \<Rightarrow> None | Some dc \<Rightarrow> cacheData dc ''tile/9'') = None \<and>
   (\<exists>s' cs. getImage example_qt ''tile/9'' disk_manager = Some (pixmapEmpty disk_manager, s') \<and>
      networkManager s' = networkManager disk_manager \<and>
      trace s' = trace disk_manager @ cs \<and> set cs \<subseteq> {DiskCacheData ''tile/9''})"
proof -
  have h: "cachePolicy disk_manager = AlwaysCache" "tileProvider disk_manager = None"
    "(case diskCache disk_manager of None \<Rightarrow> None | Some dc \<Rightarrow> cacheData dc ''tile/9'') = None"
    by (simp_all add: disk_manager_eq example_manager_eq example_store_def)
  show ?thesis
    using getImage_offline_no_download [OF example_miss(3) h(1) h(2), of "''tile/9''"] h
      example_miss(3) [of "''tile/9''"]
    by auto
qed

section \<open>One request per url\<close>

text \<open>
  Claim C4. At most one request per url is outstanding: after any run of events of the
  download coordinator from its initial state, and in every state the manager reaches from
  its constructor, the table holds at most one entry for a url; a \<^verbatim>\<open>downloadImage\<close> for a url
  that is already being downloaded changes nothing and starts no transport operation; and
  a table with at most one entry for the url keeps that through every event (a further
  request, a completion or failure, the timeout sweep, an abort).
\<close>

theorem one_request_per_url:
  "outstanding (nm_run es NetworkManager_new) u \<le> 1 \<and>
   (\<exists>s. run q ops (ImageManager_new q tile_size) = Some s \<and>
        outstanding (networkManager s) u \<le> 1) \<and>
   (isDownloading nm u \<longrightarrow> downloadImage u cacheOnly nm = nm) \<and>
   (outstanding nm u \<le> 1 \<longrightarrow> outstanding (nm_step e nm) u \<le> 1)"
proof -
  have "outstanding NetworkManager_new u \<le> 1"
    by (simp add: NetworkManager_new_def outstanding_def)
  then have "outstanding (nm_run es NetworkManager_new) u \<le> 1"
    by (rule outstanding_nm_run)
  moreover have "\<exists>s. run q ops (ImageManager_new q tile_size) = Some s \<and>
      outstanding (networkManager s) u \<le> 1"
    using reachable_invariant [of q ops tile_size] by blast
  moreover have "isDownloading nm u \<longrightarrow> downloadImage u cacheOnly nm = nm"
    by (simp add: downloadImage_def)
  moreover have "outstanding nm u \<le> 1 \<longrightarrow> outstanding (nm_step e nm) u \<le> 1"
    using outstanding_nm_step by blast
  ultimately show ?thesis by blast
qed

theorem one_request_per_url_witness:
  "isDownloading (nm_run [DownloadImageEv ''tile/1'' False] NetworkManager_new) ''tile/1'' \<and>
   downloadImage ''tile/1'' True (nm_run [DownloadImageEv ''tile/1'' False] NetworkManager_new) =
     nm_run [DownloadImageEv ''tile/1'' False] NetworkManager_new \<and>
   outstanding (nm_run [DownloadImageEv ''tile/1'' False] NetworkManager_new) ''tile/1'' \<le> 1 \<and>
   outstanding
     (nm_step (DownloadImageEv ''tile/1'' True)
        (nm_run [DownloadImageEv ''tile/1'' False] NetworkManager_new)) ''tile/1'' \<le> 1 \<and>
   downloadRequests
     (nm_run [DownloadImageEv ''tile/1'' False, DownloadImageEv ''tile/1'' True]
        NetworkManager_new) = [(Reply 0 False, ''tile/1'')] \<and>
   (\<exists>s. run example_qt [SetCachePolicy AlwaysNetwork, GetImage ''tile/1'', GetImage ''tile/1'']
          (ImageManager_new example_qt 256) = Some s \<and>
        outstanding (networkManager s) ''tile/1'' \<le> 1)"
proof -
  let ?nm = "nm_run [DownloadImageEv ''tile/1'' False] NetworkManager_new"
  have busy: "isDownloading ?nm ''tile/1''"
    by (simp add: NetworkManager_new_def downloadImage_def requestDownload_def isDownloading_def)
  have one: "outstanding ?nm ''tile/1'' \<le> 1"
    using one_request_per_url [of "[DownloadImageEv ''tile/1'' False]" "''tile/1''"] by simp
  have "downloadImage ''tile/1'' True ?nm = ?nm"
    using one_request_per_url [of _ "''tile/1''" _ _ _ ?nm True] busy by blast
  moreover have "outstanding (nm_step (DownloadImageEv ''tile/1'' True) ?nm) ''tile/1'' \<le> 1"
    using one_request_per_url [of _ "''tile/1''" _ _ _ ?nm _ "DownloadImageEv ''tile/1'' True"] one
    by blast
  moreover have "downloadRequests
     (nm_run [DownloadImageEv ''tile/1'' False, DownloadImageEv ''tile/1'' True]
        NetworkManager_new) = [(Reply 0 False, ''tile/1'')]"
    by (simp add: NetworkManager_new_def downloadImage_def requestDownload_def isDownloading_def)
  moreover have "\<exists>s. run example_qt
      [SetCachePolicy AlwaysNetwork, GetImage ''tile/1'', GetImage ''tile/1'']
      (ImageManager_new example_qt 256) = Some s \<and>
      outstanding (networkManager s) ''tile/1'' \<le> 1"
    using one_request_per_url
      [of _ "''tile/1''" example_qt
        "[SetCachePolicy AlwaysNetwork, GetImage ''tile/1'', GetImage ''tile/1'']" 256]
    by blast
  ultimately show ?thesis using busy one by blast
qed

section \<open>Completion of a download\<close>



section \<open>Changing the cache policy\<close>

text \<open>
  Claim C6. After \<^verbatim>\<open>setCachePolicy\<close> the stored policy is the argument. With \<^verbatim>\<open>AlwaysCache\<close> the
  downloads are aborted (the table of outstanding requests is empty) and the prefetch set is
  cleared; with \<^verbatim>\<open>AlwaysNetwork\<close> the cache of the network manager is the null pointer; with
  \<^verbatim>\<open>PreferCache\<close> (and with \<^verbatim>\<open>AlwaysCache\<close> too) it is the manager's own persistent cache, which
  is the null pointer when none was configured. A policy other than \<^verbatim>\<open>AlwaysCache\<close> keeps the
  outstanding requests and the prefetch set; no policy change touches the caches' contents
  or emits a signal.
\<close>

theorem setCachePolicy_effects:
  "cachePolicy (setCachePolicy policy s) = policy \<and>
   (policy = AlwaysCache \<longrightarrow>
      downloadRequests (networkManager (setCachePolicy policy s)) = [] \<and>
      downloadQueueSize (networkManager (setCachePolicy policy s)) = 0 \<and>
      prefetchUrls (setCachePolicy policy s) = {}) \<and>
   (policy = AlwaysNetwork \<longrightarrow> cache (networkManager (setCachePolicy policy s)) = Nullptr) \<and>
   (policy = PreferCache \<or> policy = AlwaysCache \<longrightarrow>
      cache (networkManager (setCachePolicy policy s)) = diskCache_ptr s) \<and>
   (policy \<noteq> AlwaysCache \<longrightarrow>
      downloadRequests (networkManager (setCachePolicy policy s)) =
        downloadRequests (networkManager s) \<and>
      prefetchUrls (setCachePolicy policy s) = prefetchUrls s) \<and>
   diskCache (setCachePolicy policy s) = diskCache s \<and>
   memoryCache (setCachePolicy policy s) = memoryCache s \<and>
   trace (setCachePolicy policy s) = trace s"
  by (cases policy)
     (simp_all add: setCachePolicy_def abortLoading_def abortDownloads_def setCache_def
       diskCache_ptr_def downloadQueueSize_def Let_def)

lemma busy_manager_eq:
  "busy_manager =
     prefer_manager
       \<lparr>prefetchUrls := {''tile/9''},
        networkManager :=
          \<lparr>downloadRequests = [(Reply 0 False, ''tile/9'')], cache = DiskCachePtr, started = 1\<rparr>,
        trace := [DiskCacheData ''tile/9'', Emit (DownloadImage ''tile/9'' False)]\<rparr>"
proof -
  let ?s1 = "prefer_manager\<lparr>prefetchUrls := insert ''tile/9'' (prefetchUrls prefer_manager)\<rparr>"
  have "busy_manager = snd (getImageInternal example_qt ''tile/9'' ?s1)"
    unfolding busy_manager_def using example_miss(5) by (rule prefetchImage_miss)
  also have "\<dots> = snd (pixmapLoading ?s1,
      ?s1\<lparr>networkManager := downloadImage ''tile/9'' False (networkManager ?s1),
          trace := trace ?s1 @ [DiskCacheData ''tile/9'', Emit (DownloadImage ''tile/9'' False)]\<rparr>)"
    by (subst getImageInternal_prefer_disk_miss
          [where dc = "\<lparr>cacheDirectory = ''tiles'', maximumCacheSize = 10485760,
                          cacheData = example_store\<rparr>"])
       (simp_all add: prefer_manager_eq disk_manager_eq example_manager_eq example_store_def)
  finally show ?thesis
    by (simp add: prefer_manager_eq disk_manager_eq example_manager_eq downloadImage_def
        isDownloading_def requestDownload_def)
qed

theorem setCachePolicy_effects_witness:
  "downloadRequests (networkManager busy_manager) = [(Reply 0 False, ''tile/9'')] \<and>
   prefetchUrls busy_manager = {''tile/9''} \<and>
   cache (networkManager busy_manager) = DiskCachePtr \<and>
   cachePolicy (setCachePolicy AlwaysCache busy_manager) = AlwaysCache \<and>
   downloadRequests (networkManager (setCachePolicy AlwaysCache busy_manager)) = [] \<and>
   prefetchUrls (setCachePolicy AlwaysCache busy_manager) = {} \<and>
   cachePolicy (setCachePolicy AlwaysNetwork busy_manager) = AlwaysNetwork \<and>
   cache (networkManager (setCachePolicy AlwaysNetwork busy_manager)) = Nullptr \<and>
   downloadRequests (networkManager (setCachePolicy AlwaysNetwork busy_manager)) =
     [(Reply 0 False, ''tile/9'')] \<and>
   cache (networkManager disk_manager) = Nullptr \<and>
   diskCache_ptr disk_manager = DiskCachePtr \<and>
   cachePolicy (setCachePolicy PreferCache disk_manager) = PreferCache \<and>
   cache (networkManager (setCachePolicy PreferCache disk_manager)) = DiskCachePtr"
  using setCachePolicy_effects [of AlwaysCache busy_manager]
    setCachePolicy_effects [of AlwaysNetwork busy_manager]
    setCachePolicy_effects [of PreferCache disk_manager]
  by (simp add: busy_manager_eq prefer_manager_eq disk_manager_eq example_manager_eq
      diskCache_ptr_def)

section \<open>Warming the persistent cache\<close>

text \<open>
  Claim C7. \<^verbatim>\<open>cacheImageToDisk\<close> under \<^verbatim>\<open>AlwaysCache\<close> or \<^verbatim>\<open>PreferCache\<close> first asks
  \<^verbatim>\<open>rawImageFromDiskCache\<close> for the raw bytes of the url (from the bound provider, else from
  the persistent cache). When there are some, it emits \<^verbatim>\<open>imageCached\<close> and returns true; when
  there are none, under \<^verbatim>\<open>AlwaysCache\<close> it returns true; neither case emits a download or
  changes the network manager. In every other case (\<^verbatim>\<open>PreferCache\<close> without bytes,
  \<^verbatim>\<open>AlwaysNetwork\<close>) it emits \<^verbatim>\<open>downloadImage(url, true)\<close>, which reaches the network manager,
  and returns false. The raw read itself only adds provider or cache reads to the trace.
\<close>

theorem cacheImageToDisk_cases:
  "((cachePolicy s = AlwaysCache \<or> cachePolicy s = PreferCache) \<and>
    fst (rawImageFromDiskCache u s) \<noteq> [] \<longrightarrow>
      cacheImageToDisk u s =
        (True, (snd (rawImageFromDiskCache u s))
                 \<lparr>trace := trace (snd (rawImageFromDiskCache u s)) @ [Emit ImageCached]\<rparr>)) \<and>
   (cachePolicy s = AlwaysCache \<and> fst (rawImageFromDiskCache u s) = [] \<longrightarrow>
      cacheImageToDisk u s = (True, snd (rawImageFromDiskCache u s))) \<and>
   (cachePolicy s = PreferCache \<and> fst (rawImageFromDiskCache u s) = [] \<longrightarrow>
      cacheImageToDisk u s =
        (False, (snd (rawImageFromDiskCache u s))
                  \<lparr>networkManager := downloadImage u True (networkManager s),
                    trace := trace (snd (rawImageFromDiskCache u s)) @
                             [Emit (DownloadImage u True)]\<rparr>)) \<and>
   (cachePolicy s = AlwaysNetwork \<longrightarrow>
      cacheImageToDisk u s =
        (False, s\<lparr>networkManager := downloadImage u True (networkManager s),
                  trace := trace s @ [Emit (DownloadImage u True)]\<rparr>)) \<and>
   (\<exists>cs. snd (rawImageFromDiskCache u s) = s\<lparr>trace := trace s @ cs\<rparr> \<and>
         set cs \<subseteq> {GetTileData u, DiskCacheData u}) \<and>
   fst (rawImageFromDiskCache u s) =
     (case tileProvider s of
        Some provider \<Rightarrow> snd (provider u)
      | None \<Rightarrow>
          (case diskCache s of
             None \<Rightarrow> []
           | Some dc \<Rightarrow> (case cacheData dc u of None \<Rightarrow> [] | Some d \<Rightarrow> d)))"
proof -
  obtain cs where cs: "snd (rawImageFromDiskCache u s) = s\<lparr>trace := trace s @ cs\<rparr>"
    "set cs \<subseteq> {GetTileData u, DiskCacheData u}"
    using rawImageFromDiskCache_state by blast
  obtain raw s1 where r: "rawImageFromDiskCache u s = (raw, s1)"
    by (cases "rawImageFromDiskCache u s")
  have s1: "s1 = s\<lparr>trace := trace s @ cs\<rparr>"
    using cs(1) r by simp
  have hit: "(cachePolicy s = AlwaysCache \<or> cachePolicy s = PreferCache) \<and>
      fst (rawImageFromDiskCache u s) \<noteq> [] \<longrightarrow>
      cacheImageToDisk u s =
        (True, (snd (rawImageFromDiskCache u s))
                 \<lparr>trace := trace (snd (rawImageFromDiskCache u s)) @ [Emit ImageCached]\<rparr>)"
    using r by (auto simp: cacheImageToDisk_def handleImageCached_def called_def)
  have offline: "cachePolicy s = AlwaysCache \<and> fst (rawImageFromDiskCache u s) = [] \<longrightarrow>
      cacheImageToDisk u s = (True, snd (rawImageFromDiskCache u s))"
    using r s1 by (auto simp: cacheImageToDisk_def)
  have no_bytes: "cachePolicy s = PreferCache \<and> fst (rawImageFromDiskCache u s) = [] \<longrightarrow>
      cacheImageToDisk u s =
        (False, (snd (rawImageFromDiskCache u s))
                  \<lparr>networkManager := downloadImage u True (networkManager s),
                    trace := trace (snd (rawImageFromDiskCache u s)) @
                             [Emit (DownloadImage u True)]\<rparr>)"
    using r s1 by (auto simp: cacheImageToDisk_def emit_downloadImage_def called_def)
  have network: "cachePolicy s = AlwaysNetwork \<longrightarrow>
      cacheImageToDisk u s =
        (False, s\<lparr>networkManager := downloadImage u True (networkManager s),
                  trace := trace s @ [Emit (DownloadImage u True)]\<rparr>)"
    by (simp add: cacheImageToDisk_def emit_downloadImage_def called_def)
  have raw: "fst (rawImageFromDiskCache u s) =
     (case tileProvider s of
        Some provider \<Rightarrow> snd (provider u)
      | None \<Rightarrow>
          (case diskCache s of
             None \<Rightarrow> []
           | Some dc \<Rightarrow> (case cacheData dc u of None \<Rightarrow> [] | Some d \<Rightarrow> d)))"
    by (simp add: rawImageFromDiskCache_def diskCache_data_def split: option.splits)
  from hit offline no_bytes network cs raw show ?thesis by blast
qed

theorem cacheImageToDisk_cases_witness:
  "cachePolicy disk_manager = AlwaysCache \<and>
   rawImageFromDiskCache ''tile/1'' disk_manager =
     (''PNG'', disk_manager\<lparr>trace := [DiskCacheData ''tile/1'']\<rparr>) \<and>
   cacheImageToDisk ''tile/1'' disk_manager =
     (True, disk_manager\<lparr>trace := [DiskCacheData ''tile/1'', Emit ImageCached]\<rparr>) \<and>
   cachePolicy example_manager = AlwaysCache \<and>
   fst (rawImageFromDiskCache ''tile/1'' example_manager) = [] \<and>
   cacheImageToDisk ''tile/1'' example_manager = (True, example_manager) \<and>
   cachePolicy prefer_manager = PreferCache \<and>
   fst (rawImageFromDiskCache ''tile/9'' prefer_manager) = [] \<and>
   cacheImageToDisk ''tile/9'' prefer_manager =
     (False,
      prefer_manager
        \<lparr>networkManager :=
           \<lparr>downloadRequests = [(Reply 0 True, ''tile/9'')], cache = DiskCachePtr, started = 1\<rparr>,
         trace := [DiskCacheData ''tile/9'', Emit (DownloadImage ''tile/9'' True)]\<rparr>) \<and>
   cachePolicy online_manager = AlwaysNetwork \<and>
   cacheImageToDisk ''tile/1'' online_manager =
     (False,
      online_manager
        \<lparr>networkManager :=
           \<lparr>downloadRequests = [(Reply 0 True, ''tile/1'')], cache = Nullptr, started = 1\<rparr>,
         trace := [Emit (DownloadImage ''tile/1'' True)]\<rparr>)"
proof -
  note defs = prefer_manager_eq online_manager_eq disk_manager_eq example_manager_eq
    example_store_def downloadImage_def isDownloading_def requestDownload_def
  have raw1: "rawImageFromDiskCache ''tile/1'' disk_manager =
      (''PNG'', disk_manager\<lparr>trace := [DiskCacheData ''tile/1'']\<rparr>)"
    by (simp add: rawImageFromDiskCache_def diskCache_data_def called_def defs)
  have raw2: "rawImageFromDiskCache ''tile/1'' example_manager = ([], example_manager)"
    by (simp add: rawImageFromDiskCache_def diskCache_data_def called_def defs)
  have raw3: "rawImageFromDiskCache ''tile/9'' prefer_manager =
      ([], prefer_manager\<lparr>trace := [DiskCacheData ''tile/9'']\<rparr>)"
    by (simp add: rawImageFromDiskCache_def diskCache_data_def called_def defs)
  have p: "cachePolicy disk_manager = AlwaysCache" "cachePolicy example_manager = AlwaysCache"
    "cachePolicy prefer_manager = PreferCache" "cachePolicy online_manager = AlwaysNetwork"
    by (simp_all add: defs)
  have "cacheImageToDisk ''tile/1'' disk_manager =
      (True, disk_manager\<lparr>trace := [DiskCacheData ''tile/1'', Emit ImageCached]\<rparr>)"
    using cacheImageToDisk_cases [of disk_manager "''tile/1''"] p(1) raw1 by simp
  moreover have "cacheImageToDisk ''tile/1'' example_manager = (True, example_manager)"
    using cacheImageToDisk_cases [of example_manager "''tile/1''"] p(2) raw2 by simp
  moreover have "cacheImageToDisk ''tile/9'' prefer_manager =
      (False,
       prefer_manager
         \<lparr>networkManager :=
            \<lparr>downloadRequests = [(Reply 0 True, ''tile/9'')], cache = DiskCachePtr, started = 1\<rparr>,
          trace := [DiskCacheData ''tile/9'', Emit (DownloadImage ''tile/9'' True)]\<rparr>)"
    using cacheImageToDisk_cases [of prefer_manager "''tile/9''"] p(3) raw3
    by (simp add: defs)
  moreover have "cacheImageToDisk ''tile/1'' online_manager =
      (False,
       online_manager
         \<lparr>networkManager :=
            \<lparr>downloadRequests = [(Reply 0 True, ''tile/1'')], cache = Nullptr, started = 1\<rparr>,
          trace := [Emit (DownloadImage ''tile/1'' True)]\<rparr>)"
    using cacheImageToDisk_cases [of online_manager "''tile/1''"] p(4)
    by (simp add: defs)
  ultimately show ?thesis
    using p raw1 raw2 raw3 by simp
qed

section \<open>A decode failure\<close>

text \<open>
  Claim C8, as the code has it. When the bytes of a tile do not decode (the decoded pixmap is
  null), \<^verbatim>\<open>getImageFromDevice\<close> returns that null pixmap itself: it puts no placeholder in its
  place. Nothing is inserted into the memory cache, which stays as it was; the url leaves
  the prefetch set. So \<^verbatim>\<open>getImage\<close> on a url that is not in the memory cache returns the null
  pixmap when the provider's bytes, or the bytes of the persistent cache, do not decode.
\<close>

theorem decode_failure_returns_null:
  assumes "fst (findTileInMemoryCache q u s) = None"
    and "isNull (fromImageReader q d)"
  shows
    "getImageFromDevice q u d s = (NullPixmap, s\<lparr>prefetchUrls := prefetchUrls s - {u}\<rparr>) \<and>
     memoryCache (snd (getImageFromDevice q u d s)) = memoryCache s \<and>
     (\<forall>provider. tileProvider s = Some provider \<and> provider u = (True, d) \<longrightarrow>
        getImage q u s =
          Some (NullPixmap,
                s\<lparr>trace := trace s @ [GetTileData u], prefetchUrls := prefetchUrls s - {u}\<rparr>)) \<and>
     (\<forall>dc. tileProvider s = None \<and> (cachePolicy s = AlwaysCache \<or> cachePolicy s = PreferCache) \<and>
        diskCache s = Some dc \<and> cacheData dc u = Some d \<longrightarrow>
        getImage q u s =
          Some (NullPixmap,
                s\<lparr>trace := trace s @ [DiskCacheData u], prefetchUrls := prefetchUrls s - {u}\<rparr>))"
proof -
  have null: "fromImageReader q d = NullPixmap"
    using assms(2) by (cases "fromImageReader q d") simp_all
  have miss: "getImage q u s = Some (getImageInternal q u s)"
    using assms(1) by (rule getImage_miss)
  have dev: "getImageFromDevice q u d s = (NullPixmap, s\<lparr>prefetchUrls := prefetchUrls s - {u}\<rparr>)"
    by (simp add: getImageFromDevice_eq null insertTile_null)
  have prov: "tileProvider s = Some provider \<and> provider u = (True, d) \<longrightarrow>
      getImage q u s =
        Some (NullPixmap,
              s\<lparr>trace := trace s @ [GetTileData u], prefetchUrls := prefetchUrls s - {u}\<rparr>)"
    for provider
    using miss getImageInternal_provider_data [where s = s and u = u and q = q and d = d]
    by (simp add: null insertTile_null)
  have disk: "tileProvider s = None \<and> (cachePolicy s = AlwaysCache \<or> cachePolicy s = PreferCache) \<and>
      diskCache s = Some dc \<and> cacheData dc u = Some d \<longrightarrow>
      getImage q u s =
        Some (NullPixmap,
              s\<lparr>trace := trace s @ [DiskCacheData u], prefetchUrls := prefetchUrls s - {u}\<rparr>)"
    for dc
    using miss getImageInternal_disk_hit [where s = s and u = u and q = q and d = d and dc = dc]
    by (auto simp: null insertTile_null)
  have "memoryCache (snd (getImageFromDevice q u d s)) = memoryCache s"
    using dev by simp
  with dev prov disk show ?thesis by blast
qed

text \<open>
  Claim C8 as stated fails: the provider of \<open>provider_manager\<close> answers \<open>''tile/2''\<close> with bytes
  that do not decode, and \<^verbatim>\<open>getImage\<close> returns the null pixmap, which is not the empty-tile
  placeholder of that manager.
\<close>

theorem decode_failure_not_placeholder:
  "fst (findTileInMemoryCache example_qt ''tile/2'' provider_manager) = None \<and>
   tileProvider provider_manager = Some example_provider \<and>
   example_provider ''tile/2'' = (True, ''garbage'') \<and>
   isNull (fromImageReader example_qt ''garbage'') \<and>
   map_option fst (getImage example_qt ''tile/2'' provider_manager) = Some NullPixmap \<and>
   pixmapEmpty provider_manager = Pixmap 256 256 32 [] \<and>
   map_option fst (getImage example_qt ''tile/2'' provider_manager) \<noteq>
     Some (pixmapEmpty provider_manager)"
proof -
  have "getImage example_qt ''tile/2'' provider_manager =
      Some (getImageInternal example_qt ''tile/2'' provider_manager)"
    using example_miss(2) by (rule getImage_miss)
  then have r: "map_option fst (getImage example_qt ''tile/2'' provider_manager) = Some NullPixmap"
    by (simp add: getImageInternal_def getImageFromDevice_def provider_manager_eq
        example_manager_eq example_provider_def example_qt_def called_def Let_def)
  have e: "pixmapEmpty provider_manager = Pixmap 256 256 32 []"
    by (simp add: provider_manager_eq example_manager_eq)
  have "map_option fst (getImage example_qt ''tile/2'' provider_manager) \<noteq>
      Some (pixmapEmpty provider_manager)"
    by (simp add: r e)
  moreover have "tileProvider provider_manager = Some example_provider \<and>
      example_provider ''tile/2'' = (True, ''garbage'') \<and>
      isNull (fromImageReader example_qt ''garbage'')"
    by (simp add: provider_manager_eq example_manager_eq example_provider_def example_qt_def)
  ultimately show ?thesis
    using r e example_miss(2) [of "''tile/2''"] by blast
qed

theorem decode_failure_returns_null_witness:
  "fst (findTileInMemoryCache example_qt ''tile/2'' provider_manager) = None \<and>
   isNull (fromImageReader example_qt ''garbage'') \<and>
   tileProvider provider_manager = Some example_provider \<and>
   example_provider ''tile/2'' = (True, ''garbage'') \<and>
   getImage example_qt ''tile/2'' provider_manager =
     Some (NullPixmap, provider_manager\<lparr>trace := [GetTileData ''tile/2'']\<rparr>) \<and>
   fst (findTileInMemoryCache example_qt ''tile/2'' prefer_manager) = None \<and>
   tileProvider prefer_manager = None \<and> cachePolicy prefer_manager = PreferCache \<and>
   map_option (\<lambda>dc. cacheData dc ''tile/2'') (diskCache prefer_manager) = Some (Some ''garbage'') \<and>
   getImage example_qt ''tile/2'' prefer_manager =
     Some (NullPixmap, prefer_manager\<lparr>trace := [DiskCacheData ''tile/2'']\<rparr>)"
proof -
  have n: "isNull (fromImageReader example_qt ''garbage'')"
    by (simp add: example_qt_def)
  show ?thesis
    using decode_failure_returns_null [OF example_miss(2) n, of "''tile/2''"]
      decode_failure_returns_null [OF example_miss(5) n, of "''tile/2''"]
      example_miss(2) [of "''tile/2''"] example_miss(5) [of "''tile/2''"] n
    by (simp add: prefer_manager_eq disk_manager_eq provider_manager_eq example_manager_eq
        example_provider_def example_store_def)
qed

section \<open>No null image in the memory cache\<close>

text \<open>
  Claim C9. \<^verbatim>\<open>insertTileToMemoryCache\<close> with a null pixmap leaves the manager, and so the memory
  cache, unchanged. Hence in every state the manager reaches from its constructor, through
  any sequence of calls, slots and events, no entry of the memory cache is a null pixmap,
  every successful \<^verbatim>\<open>findTileInMemoryCache\<close> yields a pixmap that is not null, and the
  assertion on the hit path of \<^verbatim>\<open>getImage\<close> never fails.
\<close>

theorem no_null_image_cached:
  "insertTileToMemoryCache q u NullPixmap s = s \<and>
   (isNull pm \<longrightarrow> insertTileToMemoryCache q u pm s = s) \<and>
   (\<exists>s'. run q ops (ImageManager_new q tile_size) = Some s' \<and>
         no_null_entries (memoryCache s') \<and>
         (\<forall>v pm'. fst (findTileInMemoryCache q v s') = Some pm' \<longrightarrow> \<not> isNull pm') \<and>
         (\<forall>v. getImage q v s' \<noteq> None))"
proof -
  obtain s' where s': "run q ops (ImageManager_new q tile_size) = Some s'"
    and inv: "cache_inv (memoryCache s')"
    using reachable_invariant [of q ops tile_size] by blast
  have "no_null_entries (memoryCache s')"
    using inv by (simp add: cache_inv_def)
  moreover have "\<forall>v pm'. fst (findTileInMemoryCache q v s') = Some pm' \<longrightarrow> \<not> isNull pm'"
    using findTile_not_null [OF inv] by blast
  moreover have "\<forall>v. getImage q v s' \<noteq> None"
    using getImage_cache_inv [OF inv] by fastforce
  moreover have "insertTileToMemoryCache q u NullPixmap s = s"
    by (simp add: insertTile_null)
  moreover have "isNull pm \<longrightarrow> insertTileToMemoryCache q u pm s = s"
    by (simp add: insertTile_null)
  ultimately show ?thesis using s' by blast
qed

lemma example_key:
  "tile_size_px s = 256 \<Longrightarrow> hashTileUrl example_qt s u = u @ ''3857256''"
  by (simp add: hashTileUrl_def example_qt_def QString_number_def string_of_nat.simps
      digit_char_def)

lemma example_run:
  "map_option (nodes \<circ> memoryCache)
     (run example_qt
        [SetCustomTileProvider (Some example_provider), GetImage ''tile/2'', GetImage ''tile/1'',
         HandleImageDownloaded ''tile/3'' NullPixmap, GetImage ''tile/1'']
        (ImageManager_new example_qt 256)) =
     Some [(''tile/13857256'', Pixmap 256 256 32 ''tile'', 262144)]"
  by (simp add: example_key getImage_def findTileInMemoryCache_def qcache_object_def
      getImageInternal_def getImageFromDevice_def insertTileToMemoryCache_def called_def
      handleImageDownloaded_def setCustomTileProvider_def abortLoading_def abortDownloads_def
      qcache_insert_def qcache_remove_def qcache_trim_def unlink_key_def trim_chain_stop
      chain_cost_def pixmap_cost_def node_key_def node_object_def Let_def
      example_provider_def example_manager_eq [unfolded example_manager_def])
     (simp add: example_qt_def)

theorem no_null_image_cached_witness:
  "isNull NullPixmap \<and>
   insertTileToMemoryCache example_qt ''tile/1'' NullPixmap example_manager = example_manager \<and>
   (\<exists>s'. run example_qt
           [SetCustomTileProvider (Some example_provider), GetImage ''tile/2'', GetImage ''tile/1'',
            HandleImageDownloaded ''tile/3'' NullPixmap, GetImage ''tile/1'']
           (ImageManager_new example_qt 256) = Some s' \<and>
         no_null_entries (memoryCache s')) \<and>
   map_option (nodes \<circ> memoryCache)
     (run example_qt
        [SetCustomTileProvider (Some example_provider), GetImage ''tile/2'', GetImage ''tile/1'',
         HandleImageDownloaded ''tile/3'' NullPixmap, GetImage ''tile/1'']
        (ImageManager_new example_qt 256)) =
     Some [(''tile/13857256'', Pixmap 256 256 32 ''tile'', 262144)]"
  using no_null_image_cached
    [of example_qt "''tile/1''" example_manager NullPixmap
      "[SetCustomTileProvider (Some example_provider), GetImage ''tile/2'', GetImage ''tile/1'',
        HandleImageDownloaded ''tile/3'' NullPixmap, GetImage ''tile/1'']" 256]
    example_run
  by auto

section \<open>Prefetching a tile that is already in memory\<close>

lemma two_tiles_manager_eq:
  "two_tiles_manager =
     example_manager
       \<lparr>memoryCache :=
          \<lparr>nodes = [(''tile/23857256'', large_tile, 1048576),
                    (''tile/13857256'', large_tile, 1048576)],
           maxCost = 2097152\<rparr>,
        trace := [Emit (ImageUpdated ''tile/1''), Emit (ImageUpdated ''tile/2'')]\<rparr>"
proof -
  have c: "pixmap_cost large_tile = 1048576" "\<not> isNull large_tile"
    by (simp_all add: large_tile_def pixmap_cost_def)
  show ?thesis
    by (simp add: two_tiles_manager_def example_manager_eq setMemoryCacheCapacity_def
        qcache_setMaxCost_def handleImageDownloaded_def called_def insertTileToMemoryCache_def
        example_key c qcache_insert_def qcache_remove_def qcache_trim_def unlink_key_def
        trim_chain_stop chain_cost_def node_key_def node_cost_def Let_def)
qed

lemma two_tiles_reachable:
  "run example_qt
     [SetMemoryCacheCapacity 2, HandleImageDownloaded ''tile/1'' large_tile,
      HandleImageDownloaded ''tile/2'' large_tile]
     (ImageManager_new example_qt 256) = Some two_tiles_manager"
  by (simp add: two_tiles_manager_def example_manager_def)

lemma two_tiles_hit:
  "fst (findTileInMemoryCache example_qt ''tile/1'' two_tiles_manager) = Some large_tile"
  by (simp add: findTile_result example_key two_tiles_manager_eq example_manager_eq
      qcache_object_def node_key_def node_object_def)

lemma two_tiles_prefetched:
  "prefetchImage example_qt ''tile/1'' two_tiles_manager =
     two_tiles_manager
       \<lparr>memoryCache :=
          \<lparr>nodes = [(''tile/13857256'', large_tile, 1048576),
                    (''tile/23857256'', large_tile, 1048576)],
           maxCost = 2097152\<rparr>\<rparr>"
proof -
  have "prefetchImage example_qt ''tile/1'' two_tiles_manager =
      snd (findTileInMemoryCache example_qt ''tile/1'' two_tiles_manager)"
    using two_tiles_hit by (rule prefetchImage_hit)
  also have "\<dots> = two_tiles_manager
       \<lparr>memoryCache :=
          \<lparr>nodes = [(''tile/13857256'', large_tile, 1048576),
                    (''tile/23857256'', large_tile, 1048576)],
           maxCost = 2097152\<rparr>\<rparr>"
    by (simp add: findTile_state example_key two_tiles_manager_eq example_manager_eq
        qcache_object_def unlink_key_def node_key_def)
  finally show ?thesis .
qed

text \<open>
  Claim C10 as stated fails: the lookup that \<^verbatim>\<open>prefetchImage\<close> makes moves the entry of the url
  to the front of the memory cache. With room for two tiles and \<open>''tile/1''\<close> the older of
  two, a third tile evicts \<open>''tile/1''\<close>; after a \<^verbatim>\<open>prefetchImage\<close> of \<open>''tile/1''\<close> it evicts
  \<open>''tile/2''\<close> instead.
\<close>

theorem prefetchImage_cached_changes_recency:
  "fst (findTileInMemoryCache example_qt ''tile/1'' two_tiles_manager) = Some large_tile \<and>
   memoryCache (prefetchImage example_qt ''tile/1'' two_tiles_manager) \<noteq>
     memoryCache two_tiles_manager \<and>
   fst (findTileInMemoryCache example_qt ''tile/1''
          (handleImageDownloaded example_qt ''tile/3'' large_tile two_tiles_manager)) = None \<and>
   fst (findTileInMemoryCache example_qt ''tile/1''
          (handleImageDownloaded example_qt ''tile/3'' large_tile
             (prefetchImage example_qt ''tile/1'' two_tiles_manager))) = Some large_tile"
proof -
  have c: "pixmap_cost large_tile = 1048576" "\<not> isNull large_tile"
    by (simp_all add: large_tile_def pixmap_cost_def)
  note eval = findTile_result example_key two_tiles_manager_eq example_manager_eq
    handleImageDownloaded_def called_def insertTileToMemoryCache_def c
    qcache_insert_def qcache_remove_def qcache_trim_def qcache_object_def unlink_key_def
    trim_chain_stop trim_chain_step chain_cost_def node_key_def node_cost_def node_object_def
    Let_def
  have "memoryCache (prefetchImage example_qt ''tile/1'' two_tiles_manager) \<noteq>
      memoryCache two_tiles_manager"
    by (subst two_tiles_prefetched) (simp add: two_tiles_manager_eq)
  moreover have "fst (findTileInMemoryCache example_qt ''tile/1''
      (handleImageDownloaded example_qt ''tile/3'' large_tile two_tiles_manager)) = None"
    by (simp add: eval)
  moreover have "fst (findTileInMemoryCache example_qt ''tile/1''
      (handleImageDownloaded example_qt ''tile/3'' large_tile
         (prefetchImage example_qt ''tile/1'' two_tiles_manager))) = Some large_tile"
    by (subst two_tiles_prefetched) (simp add: eval)
  ultimately show ?thesis using two_tiles_hit by blast
qed

text \<open>
  Claim C10, as the code has it. In every state the manager reaches, \<^verbatim>\<open>prefetchImage\<close> on a url
  found in the memory cache changes nothing but the recency order inside the memory cache:
  the state afterwards is the state before with the memory cache after the lookup. So the
  url is not added to the prefetch set, nothing is emitted and no call is made (the trace is
  the same), the network manager and the persistent cache are the same. The memory cache
  holds the same entries with the same costs and the same capacity, every key is looked up
  with the same result, and the entry of the url is now the most recently used one.
\<close>

theorem prefetchImage_cached_frame:
  assumes "run q ops (ImageManager_new q tile_size) = Some s"
    and "fst (findTileInMemoryCache q u s) = Some pm"
  shows
    "prefetchImage q u s =
       s\<lparr>memoryCache := snd (qcache_object (hashTileUrl q s u) (memoryCache s))\<rparr> \<and>
     mset (nodes (memoryCache (prefetchImage q u s))) = mset (nodes (memoryCache s)) \<and>
     maxCost (memoryCache (prefetchImage q u s)) = maxCost (memoryCache s) \<and>
     totalCost (memoryCache (prefetchImage q u s)) = totalCost (memoryCache s) \<and>
     (\<forall>k. fst (qcache_object k (memoryCache (prefetchImage q u s))) =
          fst (qcache_object k (memoryCache s))) \<and>
     (\<exists>cost. nodes (memoryCache (prefetchImage q u s)) =
        (hashTileUrl q s u, pm, cost) # unlink_key (hashTileUrl q s u) (nodes (memoryCache s)))"
proof -
  let ?k = "hashTileUrl q s u"
  let ?c = "memoryCache s"
  have inv: "cache_inv ?c"
    using reachable_invariant [of q ops tile_size] assms(1) by auto
  have p: "prefetchImage q u s = s\<lparr>memoryCache := snd (qcache_object ?k ?c)\<rparr>"
    using prefetchImage_hit [OF assms(2)] by (simp add: findTile_state)
  obtain n where n: "find (\<lambda>n. node_key n = ?k) (nodes ?c) = Some n" and pm: "pm = node_object n"
    using assms(2) by (auto simp: findTile_result qcache_object_def split: option.splits)
  have after: "snd (qcache_object ?k ?c) = ?c\<lparr>nodes := n # unlink_key ?k (nodes ?c)\<rparr>"
    using n by (simp add: qcache_object_def)
  have m: "mset (n # unlink_key ?k (nodes ?c)) = mset (nodes ?c)"
    using inv n by (intro relink_mset) (simp_all add: cache_inv_def keys_distinct_def)
  have "sum_mset (image_mset node_cost (mset (n # unlink_key ?k (nodes ?c)))) =
      sum_mset (image_mset node_cost (mset (nodes ?c)))"
    using m by simp
  then have t: "chain_cost (n # unlink_key ?k (nodes ?c)) = chain_cost (nodes ?c)"
    unfolding chain_cost_def by (simp only: mset_map [symmetric] sum_mset_sum_list)
  obtain k obj cost where nk: "n = (k, obj, cost)"
    by (cases n)
  have "k = ?k" and "obj = pm"
    using find_key_Some [OF n] pm nk by (simp_all add: node_key_def node_object_def)
  then have first: "nodes (memoryCache (prefetchImage q u s)) =
      (?k, pm, cost) # unlink_key ?k (nodes ?c)"
    using p after nk by simp
  have same: "fst (qcache_object k' (memoryCache (prefetchImage q u s))) =
      fst (qcache_object k' ?c)" for k'
    using p object_same_lookups [of k' ?k ?c] by simp
  from p m t first same after show ?thesis
    by (simp add: totalCost_def)
qed

theorem prefetchImage_cached_frame_witness:
  "run example_qt
     [SetMemoryCacheCapacity 2, HandleImageDownloaded ''tile/1'' large_tile,
      HandleImageDownloaded ''tile/2'' large_tile]
     (ImageManager_new example_qt 256) = Some two_tiles_manager \<and>
   fst (findTileInMemoryCache example_qt ''tile/1'' two_tiles_manager) = Some large_tile \<and>
   prefetchUrls (prefetchImage example_qt ''tile/1'' two_tiles_manager) =
     prefetchUrls two_tiles_manager \<and>
   trace (prefetchImage example_qt ''tile/1'' two_tiles_manager) = trace two_tiles_manager \<and>
   networkManager (prefetchImage example_qt ''tile/1'' two_tiles_manager) =
     networkManager two_tiles_manager \<and>
   diskCache (prefetchImage example_qt ''tile/1'' two_tiles_manager) =
     diskCache two_tiles_manager \<and>
   mset (nodes (memoryCache (prefetchImage example_qt ''tile/1'' two_tiles_manager))) =
     mset (nodes (memoryCache two_tiles_manager)) \<and>
   totalCost (memoryCache (prefetchImage example_qt ''tile/1'' two_tiles_manager)) = 2097152"
proof -
  note t = prefetchImage_cached_frame [OF two_tiles_reachable two_tiles_hit]
  have "prefetchImage example_qt ''tile/1'' two_tiles_manager =
      two_tiles_manager
        \<lparr>memoryCache :=
           snd (qcache_object (hashTileUrl example_qt two_tiles_manager ''tile/1'')
                  (memoryCache two_tiles_manager))\<rparr>"
    using t by blast
  then have "prefetchUrls (prefetchImage example_qt ''tile/1'' two_tiles_manager) =
        prefetchUrls two_tiles_manager \<and>
      trace (prefetchImage example_qt ''tile/1'' two_tiles_manager) = trace two_tiles_manager \<and>
      networkManager (prefetchImage example_qt ''tile/1'' two_tiles_manager) =
        networkManager two_tiles_manager \<and>
      diskCache (prefetchImage example_qt ''tile/1'' two_tiles_manager) =
        diskCache two_tiles_manager"
    by simp
  moreover have "mset (nodes (memoryCache (prefetchImage example_qt ''tile/1'' two_tiles_manager))) =
      mset (nodes (memoryCache two_tiles_manager))"
    using t by blast
  moreover have "totalCost (memoryCache (prefetchImage example_qt ''tile/1'' two_tiles_manager)) =
      totalCost (memoryCache two_tiles_manager)"
    using t by blast
  then have "totalCost (memoryCache (prefetchImage example_qt ''tile/1'' two_tiles_manager)) =
      2097152"
    by (simp add: two_tiles_manager_eq example_manager_eq totalCost_def chain_cost_def
        node_cost_def)
  ultimately show ?thesis
    using two_tiles_reachable two_tiles_hit by blast
qed


end
